theory Spec2Isabelle
  imports Complex_Main "HOL-Library.Word"
begin

section \<open>JavaScript values used by the upload code\<close>

text \<open>
  The repository is TypeScript run by Bun. Three features of the language decide what the
  multipart loop does and are written out here instead of being left to HOL's total
  functions: division by zero gives \<open>Infinity\<close> or \<open>NaN\<close> (HOL gives 0), \<open>x || d\<close>
  falls back to \<open>d\<close> for every falsy \<open>x\<close> (absent, 0, the empty string), and
  \<open>String.prototype.repeat\<close> throws a RangeError for a negative or infinite count.

  Numbers are modelled as exact rationals extended by the two infinities and NaN. The
  rounding of IEEE doubles, their overflow to \<open>Infinity\<close> and the sign of zero are not
  modelled. File sizes and part numbers are natural numbers, as \<open>file.size\<close> and the
  loop counter are; the \<open>chunkSize\<close> of the option is a \<open>number\<close> and so any of
  these values: negative, fractional, infinite or NaN. On natural numbers below
  \<open>2^53\<close> the comparison \<open>i < totalSize / chunkSize\<close> of the loop gives the same
  answer with doubles as with rationals. With a chunk size that is no whole number the
  two can differ: \<open>3 / 5e-324\<close> is \<open>Infinity\<close> for doubles and a finite rational
  here. What is proved of a chunk size that is no whole number is therefore only what
  does not depend on the rounding: which value \<open>x || d\<close> gives, the sign of the loop
  bound, the bound 0 of an empty file, and the order of the requests in a run that
  returns. That a run returns, and which bytes its parts have, is proved for chunk sizes
  that are absent or whole numbers.
\<close>

type_synonym byte = "8 word"

datatype jsnum = Fin rat | PosInf | NegInf | NaN

text \<open>The operator \<open><\<close>: every comparison with NaN is false.\<close>

fun js_less :: "jsnum \<Rightarrow> jsnum \<Rightarrow> bool" where
  "js_less (Fin a) (Fin b) = (a < b)"
| "js_less (Fin a) PosInf = True"
| "js_less NegInf (Fin b) = True"
| "js_less NegInf PosInf = True"
| "js_less _ _ = False"

text \<open>The operator \<open>/\<close>.\<close>

fun js_quot :: "jsnum \<Rightarrow> jsnum \<Rightarrow> jsnum" where
  "js_quot (Fin a) (Fin b) =
     (if b \<noteq> 0 then Fin (a / b) else if a = 0 then NaN else if 0 < a then PosInf else NegInf)"
| "js_quot (Fin a) PosInf = Fin 0"
| "js_quot (Fin a) NegInf = Fin 0"
| "js_quot PosInf (Fin b) = (if 0 \<le> b then PosInf else NegInf)"
| "js_quot NegInf (Fin b) = (if 0 \<le> b then NegInf else PosInf)"
| "js_quot _ _ = NaN"

text \<open>The operator \<open>*\<close>.\<close>

fun js_times :: "jsnum \<Rightarrow> jsnum \<Rightarrow> jsnum" where
  "js_times (Fin a) (Fin b) = Fin (a * b)"
| "js_times (Fin a) PosInf = (if a = 0 then NaN else if 0 < a then PosInf else NegInf)"
| "js_times (Fin a) NegInf = (if a = 0 then NaN else if 0 < a then NegInf else PosInf)"
| "js_times PosInf (Fin b) = (if b = 0 then NaN else if 0 < b then PosInf else NegInf)"
| "js_times NegInf (Fin b) = (if b = 0 then NaN else if 0 < b then NegInf else PosInf)"
| "js_times PosInf PosInf = PosInf"
| "js_times PosInf NegInf = NegInf"
| "js_times NegInf PosInf = NegInf"
| "js_times NegInf NegInf = PosInf"
| "js_times _ _ = NaN"

text \<open>The binary operator \<open>-\<close>.\<close>

fun js_minus :: "jsnum \<Rightarrow> jsnum \<Rightarrow> jsnum" where
  "js_minus (Fin a) (Fin b) = Fin (a - b)"
| "js_minus (Fin a) PosInf = NegInf"
| "js_minus (Fin a) NegInf = PosInf"
| "js_minus PosInf (Fin b) = PosInf"
| "js_minus NegInf (Fin b) = NegInf"
| "js_minus PosInf NegInf = PosInf"
| "js_minus NegInf PosInf = NegInf"
| "js_minus _ _ = NaN"

text \<open>\<open>Math.floor\<close>.\<close>

fun js_floor :: "jsnum \<Rightarrow> jsnum" where
  "js_floor (Fin r) = Fin (of_int \<lfloor>r\<rfloor>)"
| "js_floor x = x"

text \<open>
  \<open>Number.prototype.toFixed(0)\<close>: the nearest integer, a tie going away from zero;
  \<open>Infinity\<close> and \<open>NaN\<close> are printed as such. The result is the number whose digits
  are printed.
\<close>

fun js_toFixed0 :: "jsnum \<Rightarrow> jsnum" where
  "js_toFixed0 (Fin r) =
     (if 0 \<le> r then Fin (of_int \<lfloor>r + 1 / 2\<rfloor>) else Fin (- of_int \<lfloor>- r + 1 / 2\<rfloor>))"
| "js_toFixed0 x = x"

datatype js_error =
    ClientNotInitialized
      \<comment> \<open>\<open>new Error('R2 client not initialized. Call initR2Client() first.')\<close>\<close>
  | UploadIdMissing
      \<comment> \<open>the \<open>Error\<close> that \<open>multipartUpload\<close> throws when the store returned no upload id\<close>
  | ServiceException string "nat option"
      \<comment> \<open>a rejected \<open>client.send\<close>: \<open>error.name\<close> and \<open>error.$metadata?.httpStatusCode\<close>\<close>
  | RangeError
      \<comment> \<open>\<open>String.prototype.repeat\<close> with an invalid count\<close>

text \<open>
  \<open>s.repeat(count)\<close> for a one-character string \<open>s\<close>: the count is truncated towards
  zero (NaN counts as 0); a negative or infinite count throws. The limit on the length
  of a string, which makes a very large count throw the same error, is not modelled.
\<close>

fun js_repeat :: "char \<Rightarrow> jsnum \<Rightarrow> js_error + string" where
  "js_repeat ch (Fin r) =
     (let n = (if 0 \<le> r then \<lfloor>r\<rfloor> else \<lceil>r\<rceil>)
      in if n < 0 then Inl RangeError else Inr (replicate (nat n) ch))"
| "js_repeat ch PosInf = Inl RangeError"
| "js_repeat ch NegInf = Inl RangeError"
| "js_repeat ch NaN = Inr []"

text \<open>Truthiness of an optional string: absent and empty are falsy.\<close>

fun truthy_str :: "string option \<Rightarrow> bool" where
  "truthy_str None = False"
| "truthy_str (Some s) = (s \<noteq> [])"

text \<open>
  \<open>slice(start, end)\<close> of a \<open>Uint8Array\<close> and of an array. Each argument is
  truncated towards zero (NaN counts as 0); a negative one counts from the end; both are
  clamped to the length, and an empty array results when the end is not after the start.
\<close>

fun relative_index :: "nat \<Rightarrow> jsnum \<Rightarrow> nat" where
  "relative_index len (Fin r) =
     (let k = (if 0 \<le> r then \<lfloor>r\<rfloor> else \<lceil>r\<rceil>)
      in if k < 0 then nat (max (int len + k) 0) else min (nat k) len)"
| "relative_index len PosInf = len"
| "relative_index len NegInf = 0"
| "relative_index len NaN = 0"

definition slice :: "'a list \<Rightarrow> jsnum \<Rightarrow> jsnum \<Rightarrow> 'a list" where
  "slice xs start end =
     (let k = relative_index (length xs) start;
          final = relative_index (length xs) end
      in take (final - k) (drop k xs))"

section \<open>The client singleton (config.ts)\<close>

record R2Config =
  accountId :: string
  accessKeyId :: string
  secretAccessKey :: string
  region :: "string option"

text \<open>
  An \<open>S3Client\<close> object. \<open>client_ref\<close> is the identity of the object: every
  \<open>new S3Client\<close> gets a fresh one, so that two clients built from the same
  configuration are still two instances.
\<close>

record S3Client =
  client_ref :: nat
  client_region :: string
  client_endpoint :: string
  client_accessKeyId :: string
  client_secretAccessKey :: string
  forcePathStyle :: bool

text \<open>
  The module state of config.ts: the variable \<open>defaultR2Client\<close> (initially null) and
  the number of objects allocated so far.
\<close>

record module_state =
  defaultR2Client :: "S3Client option"
  allocated :: nat

definition initial_state :: module_state where
  "initial_state = \<lparr>defaultR2Client = None, allocated = 0\<rparr>"

definition createR2Client :: "R2Config \<Rightarrow> module_state \<Rightarrow> S3Client \<times> module_state" where
  "createR2Client config st =
     (\<lparr>client_ref = allocated st,
       client_region = (case region config of None \<Rightarrow> ''auto'' | Some r \<Rightarrow> r),
       client_endpoint = ''https://'' @ accountId config @ ''.r2.cloudflarestorage.com'',
       client_accessKeyId = accessKeyId config,
       client_secretAccessKey = secretAccessKey config,
       forcePathStyle = True\<rparr>,
      st\<lparr>allocated := Suc (allocated st)\<rparr>)"

definition initR2Client :: "R2Config \<Rightarrow> module_state \<Rightarrow> module_state" where
  "initR2Client config st =
     (case createR2Client config st of (client, st') \<Rightarrow> st'\<lparr>defaultR2Client := Some client\<rparr>)"

definition getR2Client :: "module_state \<Rightarrow> js_error + S3Client" where
  "getR2Client st =
     (case defaultR2Client st of None \<Rightarrow> Inl ClientNotInitialized | Some client \<Rightarrow> Inr client)"

section \<open>Requests, responses and the trace of a run\<close>

text \<open>
  One entry of the \<open>Parts\<close> list given to \<open>completeMultipartUpload\<close>. The code
  writes \<open>ETag!\<close>, which checks nothing at run time, so the tag may be absent.
\<close>

record part =
  PartNumber :: nat
  ETag :: "string option"

record CORSRule =
  allowedHeaders :: "string list option"
  allowedMethods :: "string list"
  allowedOrigins :: "string list"
  exposeHeaders :: "string list option"
  maxAgeSeconds :: "nat option"

text \<open>
  A lifecycle rule: \<open>filter\<close> is an optional pair of an optional prefix and an optional
  tag (key, value), \<open>expiration\<close> an optional pair of optional days and an optional date,
  and a transition has optional days, an optional date and a storage class.
\<close>

record LifecycleRule =
  rule_id :: "string option"
  rule_status :: string
  rule_filter :: "(string option \<times> (string \<times> string) option) option"
  rule_expiration :: "(nat option \<times> nat option) option"
  rule_transitions :: "(nat option \<times> nat option \<times> string) list option"

text \<open>
  The commands of the SDK that the library constructs, each with the fields the library
  fills in, in the order of the source. An optional field is an \<open>option\<close>.
\<close>

datatype request =
    PutObjectCommand string string "byte list" "string option" "(string \<times> string) list option"
  | CreateMultipartUploadCommand string string "string option" "(string \<times> string) list option"
  | UploadPartCommand string string string nat "byte list"
  | UploadPartCopyCommand string string string nat string "string option"
  | CompleteMultipartUploadCommand string string string "part list"
  | AbortMultipartUploadCommand string string string
  | CopyObjectCommand string string string "(string \<times> string) list option" "string option"
  | GetObjectCommand string string
  | HeadObjectCommand string string
  | ListObjectsCommand string "string option" "string option" "string option" "nat option"
  | ListObjectsV2Command string "string option" "string option" "string option" "nat option"
      "string option"
  | DeleteObjectCommand string string
  | DeleteObjectsCommand string "string list" bool
  | ListMultipartUploadsCommand string "string option" "string option" "string option" "nat option"
  | ListPartsCommand string string string "string option" "nat option"
  | ListBucketsCommand
  | CreateBucketCommand string
  | DeleteBucketCommand string
  | HeadBucketCommand string
  | GetBucketCorsCommand string
  | PutBucketCorsCommand string "CORSRule list"
  | GetBucketLifecycleConfigurationCommand string
  | PutBucketLifecycleConfigurationCommand string "LifecycleRule list"
  | GetBucketLocationCommand string
  | GetBucketEncryptionCommand string
  | PutBucketEncryptionCommand string string

text \<open>The fields of a command output that the repository reads.\<close>

record s3_object =
  object_Key :: "string option"

record multipart_upload =
  upload_Key :: "string option"
  upload_UploadId :: "string option"

record response =
  UploadId :: "string option"
  output_ETag :: "string option"
  VersionId :: "string option"
  Contents :: "s3_object list option"
  NextContinuationToken :: "string option"
  Uploads :: "multipart_upload list option"

text \<open>
  The store is a parameter: \<open>send client command\<close> is what \<open>await client.send(command)\<close>
  gives, a rejection (\<open>Inl\<close>) or an output (\<open>Inr\<close>).
\<close>

type_synonym sender = "S3Client \<Rightarrow> request \<Rightarrow> js_error + response"

text \<open>
  What a run does, in order: the commands sent and the writes to the terminal.
  \<open>LoadingText bar percent\<close> is an assignment to \<open>loading.text\<close>: the characters
  between the brackets of the progress bar and the number printed before the percent sign.
  \<open>StdoutProgress bar\<close> is the progress line of the example script.
\<close>

datatype event =
    Sent S3Client request
  | LoadingStart
  | LoadingText string jsnum
  | LoadingSucceed
  | LoadingFail
  | StdoutProgress string
  | StdoutClearLine
  | ConsoleLog
  | ConsoleError
  | Prompt

type_synonym 'a outcome = "(js_error + 'a) \<times> event list"

definition client_send :: "sender \<Rightarrow> S3Client \<Rightarrow> request \<Rightarrow> response outcome" where
  "client_send send client command = (send client command, [Sent client command])"

section \<open>Uploading (upload.ts)\<close>


definition createMultipartUpload ::
  "module_state \<Rightarrow> sender \<Rightarrow> string \<Rightarrow> string \<Rightarrow> string option \<Rightarrow>
   (string \<times> string) list option \<Rightarrow> response outcome" where
  "createMultipartUpload st send bucketName key contentType metadata =
     (case getR2Client st of
        Inl e \<Rightarrow> (Inl e, [])
      | Inr client \<Rightarrow>
          client_send send client (CreateMultipartUploadCommand bucketName key contentType metadata))"

definition uploadPart ::
  "module_state \<Rightarrow> sender \<Rightarrow> string \<Rightarrow> string \<Rightarrow> string \<Rightarrow> nat \<Rightarrow> byte list \<Rightarrow>
   response outcome" where
  "uploadPart st send bucketName key uploadId partNumber body =
     (case getR2Client st of
        Inl e \<Rightarrow> (Inl e, [])
      | Inr client \<Rightarrow>
          client_send send client (UploadPartCommand bucketName key uploadId partNumber body))"


definition completeMultipartUpload ::
  "module_state \<Rightarrow> sender \<Rightarrow> string \<Rightarrow> string \<Rightarrow> string \<Rightarrow> part list \<Rightarrow> response outcome" where
  "completeMultipartUpload st send bucketName key uploadId parts =
     (case getR2Client st of
        Inl e \<Rightarrow> (Inl e, [])
      | Inr client \<Rightarrow>
          client_send send client (CompleteMultipartUploadCommand bucketName key uploadId parts))"



section \<open>The multipart upload of the command-line tool and of the example script\<close>

text \<open>
  Two functions named \<open>multipartUpload\<close> exist: the one of the interactive tool, which
  draws its progress on a spinner, and the one of the example script, which writes it to
  standard output. They differ in the default chunk size, in the progress line and in
  what they print; the loop over the parts is the same text in both, so it is modelled
  once, with the progress line as a parameter.
\<close>

definition js_num :: "nat \<Rightarrow> jsnum" where
  "js_num n = Fin (of_nat n)"

text \<open>\<open>path.lastIndexOf(ch)\<close>: the last position of the character, or -1.\<close>

definition lastIndexOf :: "string \<Rightarrow> char \<Rightarrow> int" where
  "lastIndexOf path ch =
     (if ch \<in> set path
      then int (length path) - 1 - int (length (takeWhile (\<lambda>x. x \<noteq> ch) (rev path)))
      else - 1)"

definition getFileName :: "string \<Rightarrow> string" where
  "getFileName path =
     (let lastIndex = max (lastIndexOf path CHR ''/'') (lastIndexOf path (CHR 0x5C))
      in drop (nat (lastIndex + 1)) path)"

text \<open>The optional argument \<open>option?: {chunkSize?: number, customFileName?: string}\<close>.\<close>

record upload_option =
  opt_chunkSize :: "jsnum option"
  opt_customFileName :: "string option"

definition option_chunkSize :: "upload_option option \<Rightarrow> jsnum option" where
  "option_chunkSize option = (case option of None \<Rightarrow> None | Some opt \<Rightarrow> opt_chunkSize opt)"

definition option_customFileName :: "upload_option option \<Rightarrow> string option" where
  "option_customFileName option =
     (case option of None \<Rightarrow> None | Some opt \<Rightarrow> opt_customFileName opt)"

text \<open>
  \<open>x || d\<close> for an optional number and for an optional string. The falsy numbers are
  0 and NaN; every other number, a negative one too, is truthy and is the result.
\<close>

definition num_or :: "jsnum option \<Rightarrow> jsnum \<Rightarrow> jsnum" where
  "num_or x d = (case x of None \<Rightarrow> d | Some n \<Rightarrow> if n = Fin 0 \<or> n = NaN then d else n)"

definition str_or :: "string option \<Rightarrow> string \<Rightarrow> string" where
  "str_or x d = (case x of None \<Rightarrow> d | Some s \<Rightarrow> if s \<noteq> [] then s else d)"

text \<open>
  The chunk size of the tool, \<open>option?.chunkSize || 50 * 1024 * 1024\<close>, and the one of
  the example script, \<open>option?.chunkSize || 5 * 1024 * 1024\<close>.
\<close>

definition cli_chunkSize :: "upload_option option \<Rightarrow> jsnum" where
  "cli_chunkSize option = num_or (option_chunkSize option) (Fin (50 * 1024 * 1024))"

definition example_chunkSize :: "upload_option option \<Rightarrow> jsnum" where
  "example_chunkSize option = num_or (option_chunkSize option) (Fin (5 * 1024 * 1024))"

text \<open>
  The byte range of the chunk with index \<open>i\<close>, the two arguments of \<open>fileBuff.slice\<close>:
  \<open>i * chunkSize\<close> and \<open>(i + 1) * chunkSize > totalSize ? totalSize : (i + 1) * chunkSize\<close>.
\<close>

definition chunk_range :: "nat \<Rightarrow> jsnum \<Rightarrow> nat \<Rightarrow> jsnum \<times> jsnum" where
  "chunk_range totalSize chunkSize i =
     (js_times (js_num i) chunkSize,
      if js_less (js_num totalSize) (js_times (js_num (i + 1)) chunkSize) then js_num totalSize
      else js_times (js_num (i + 1)) chunkSize)"

text \<open>\<open>partNumber / (totalSize / chunkSize)\<close>, the fraction both progress lines use.\<close>

definition progress_ratio :: "nat \<Rightarrow> nat \<Rightarrow> jsnum \<Rightarrow> jsnum" where
  "progress_ratio partNumber totalSize chunkSize =
     js_quot (js_num partNumber) (js_quot (js_num totalSize) chunkSize)"

text \<open>
  The assignment to \<open>loading.text\<close> of the tool: a bar of
  \<open>Math.floor(ratio * 50)\<close> hashes and \<open>50 - Math.floor(ratio * 50)\<close> blanks, then
  \<open>(ratio * 100).toFixed(0)\<close> and a percent sign. The file name and the size in MB
  that precede the bar cannot throw and are left out.
\<close>

definition cli_progress :: "nat \<Rightarrow> nat \<Rightarrow> jsnum \<Rightarrow> js_error + event" where
  "cli_progress partNumber totalSize chunkSize =
     (let ratio = progress_ratio partNumber totalSize chunkSize
      in case js_repeat CHR ''#'' (js_floor (js_times ratio (Fin 50))) of
           Inl e \<Rightarrow> Inl e
         | Inr hashes \<Rightarrow>
             (case js_repeat CHR '' '' (js_minus (Fin 50) (js_floor (js_times ratio (Fin 50)))) of
                Inl e \<Rightarrow> Inl e
              | Inr blanks \<Rightarrow>
                  Inr (LoadingText (hashes @ blanks) (js_toFixed0 (js_times ratio (Fin 100))))))"

text \<open>The \<open>process.stdout.write\<close> of the example script: hashes and dashes, no percentage.\<close>

definition example_progress :: "nat \<Rightarrow> nat \<Rightarrow> jsnum \<Rightarrow> js_error + event" where
  "example_progress partNumber totalSize chunkSize =
     (let ratio = progress_ratio partNumber totalSize chunkSize
      in case js_repeat CHR ''#'' (js_floor (js_times ratio (Fin 50))) of
           Inl e \<Rightarrow> Inl e
         | Inr hashes \<Rightarrow>
             (case js_repeat CHR ''-'' (js_minus (Fin 50) (js_floor (js_times ratio (Fin 50)))) of
                Inl e \<Rightarrow> Inl e
              | Inr dashes \<Rightarrow> Inr (StdoutProgress (hashes @ dashes))))"

text \<open>
  The loop \<open>for (let i = 0; i < totalSize / chunkSize; i++)\<close>. \<open>parts\<close> is the array
  the loop pushes to and \<open>trace\<close> what the run has done so far. An exception leaves the
  loop with \<open>Inl\<close>; the loop need not end (a chunk size of 0 makes the bound infinite),
  so the result is an \<open>option\<close> and \<open>None\<close> stands for a run that never returns.
\<close>

partial_function (option) upload_parts ::
  "(nat \<Rightarrow> nat \<Rightarrow> jsnum \<Rightarrow> js_error + event) \<Rightarrow> module_state \<Rightarrow> sender \<Rightarrow> string \<Rightarrow> string \<Rightarrow>
   string \<Rightarrow> byte list \<Rightarrow> nat \<Rightarrow> jsnum \<Rightarrow> nat \<Rightarrow> part list \<Rightarrow> event list \<Rightarrow>
   (part list outcome) option" where
  "upload_parts progress st send bucket fileName uploadId fileBuff totalSize chunkSize i parts trace =
     (if js_less (js_num i) (js_quot (js_num totalSize) chunkSize) then
        (let chunk = slice fileBuff (fst (chunk_range totalSize chunkSize i))
                       (snd (chunk_range totalSize chunkSize i));
             partNumber = i + 1
         in case uploadPart st send bucket fileName uploadId partNumber chunk of
              (Inl e, sent) \<Rightarrow> Some (Inl e, trace @ sent)
            | (Inr output, sent) \<Rightarrow>
                (let parts' = parts @ [\<lparr>PartNumber = partNumber, ETag = output_ETag output\<rparr>]
                 in case progress partNumber totalSize chunkSize of
                      Inl e \<Rightarrow> Some (Inl e, trace @ sent)
                    | Inr shown \<Rightarrow>
                        upload_parts progress st send bucket fileName uploadId fileBuff totalSize
                          chunkSize (i + 1) parts' (trace @ sent @ [shown])))
      else Some (Inr parts, trace))"

text \<open>
  The \<open>try\<close> block of the tool's \<open>multipartUpload\<close>: create the upload, throw when no
  upload id came back, start the spinner, upload the parts, complete, report success and
  wait for a key.
\<close>

definition cli_try ::
  "module_state \<Rightarrow> sender \<Rightarrow> string \<Rightarrow> string \<Rightarrow> byte list \<Rightarrow> nat \<Rightarrow> jsnum \<Rightarrow> (unit outcome) option"
  where
  "cli_try st send bucket fileName fileBuff totalSize chunkSize =
     (case createMultipartUpload st send bucket fileName (Some ''application/octet-stream'') None of
        (Inl e, sent) \<Rightarrow> Some (Inl e, sent)
      | (Inr created, sent) \<Rightarrow>
          (case UploadId created of
             None \<Rightarrow> Some (Inl UploadIdMissing, sent)
           | Some uploadId \<Rightarrow>
               if uploadId = [] then Some (Inl UploadIdMissing, sent)
               else
                 (case upload_parts cli_progress st send bucket fileName uploadId fileBuff
                         totalSize chunkSize 0 [] (sent @ [LoadingStart]) of
                    None \<Rightarrow> None
                  | Some (Inl e, trace) \<Rightarrow> Some (Inl e, trace)
                  | Some (Inr parts, trace) \<Rightarrow>
                      (case completeMultipartUpload st send bucket fileName uploadId parts of
                         (Inl e, sent') \<Rightarrow> Some (Inl e, trace @ sent')
                       | (Inr result, sent') \<Rightarrow>
                           Some (Inr (), trace @ sent' @ [ConsoleLog, LoadingSucceed, Prompt])))))"

text \<open>
  \<open>multipartUpload\<close> of the tool. The file has been read before the \<open>try\<close>; its bytes
  are the argument \<open>fileBytes\<close>. The \<open>catch\<close> clause takes every exception of the
  block, marks the spinner as failed and waits for a key: the function itself returns
  normally in both cases.
\<close>

definition multipartUpload ::
  "module_state \<Rightarrow> sender \<Rightarrow> string \<Rightarrow> string \<Rightarrow> byte list \<Rightarrow> upload_option option \<Rightarrow>
   (unit outcome) option" where
  "multipartUpload st send bucket filePath fileBytes option =
     (let fileName = str_or (option_customFileName option) (getFileName filePath);
          totalSize = length fileBytes;
          chunkSize = cli_chunkSize option
      in case cli_try st send bucket fileName fileBytes totalSize chunkSize of
           None \<Rightarrow> None
         | Some (Inl error, trace) \<Rightarrow> Some (Inr (), trace @ [LoadingFail, Prompt])
         | Some (Inr u, trace) \<Rightarrow> Some (Inr (), trace))"

text \<open>The \<open>try\<close> block of the example script's \<open>multipartUpload\<close>.\<close>

definition example_try ::
  "module_state \<Rightarrow> sender \<Rightarrow> string \<Rightarrow> string \<Rightarrow> byte list \<Rightarrow> nat \<Rightarrow> jsnum \<Rightarrow> (unit outcome) option"
  where
  "example_try st send bucket fileName fileBuff totalSize chunkSize =
     (case createMultipartUpload st send bucket fileName (Some ''application/octet-stream'') None of
        (Inl e, sent) \<Rightarrow> Some (Inl e, sent)
      | (Inr created, sent) \<Rightarrow>
          (case UploadId created of
             None \<Rightarrow> Some (Inl UploadIdMissing, sent @ [ConsoleLog])
           | Some uploadId \<Rightarrow>
               if uploadId = [] then Some (Inl UploadIdMissing, sent @ [ConsoleLog])
               else
                 (case upload_parts example_progress st send bucket fileName uploadId fileBuff
                         totalSize chunkSize 0 [] (sent @ [ConsoleLog]) of
                    None \<Rightarrow> None
                  | Some (Inl e, trace) \<Rightarrow> Some (Inl e, trace)
                  | Some (Inr parts, trace) \<Rightarrow>
                      (case completeMultipartUpload st send bucket fileName uploadId parts of
                         (Inl e, sent') \<Rightarrow> Some (Inl e, trace @ sent')
                       | (Inr result, sent') \<Rightarrow>
                           Some (Inr (), trace @ sent' @ [StdoutClearLine, ConsoleLog])))))"

text \<open>
  \<open>multipartUpload\<close> of the example script: it prints a heading, runs the block and
  prints the exception it catches.
\<close>

definition example_multipartUpload ::
  "module_state \<Rightarrow> sender \<Rightarrow> string \<Rightarrow> string \<Rightarrow> byte list \<Rightarrow> upload_option option \<Rightarrow>
   (unit outcome) option" where
  "example_multipartUpload st send bucket filePath fileBytes option =
     (let fileName = str_or (option_customFileName option) (getFileName filePath);
          totalSize = length fileBytes;
          chunkSize = example_chunkSize option
      in case example_try st send bucket fileName fileBytes totalSize chunkSize of
           None \<Rightarrow> None
         | Some (Inl error, trace) \<Rightarrow> Some (Inr (), ConsoleLog # trace @ [ConsoleError])
         | Some (Inr u, trace) \<Rightarrow> Some (Inr (), ConsoleLog # trace))"

text \<open>What a trace shows: the parts uploaded, the part lists completed, the progress shown.\<close>

fun uploaded_parts :: "event list \<Rightarrow> (nat \<times> byte list) list" where
  "uploaded_parts [] = []"
| "uploaded_parts (Sent client (UploadPartCommand b k u partNumber body) # evs) =
     (partNumber, body) # uploaded_parts evs"
| "uploaded_parts (ev # evs) = uploaded_parts evs"

fun completions :: "event list \<Rightarrow> part list list" where
  "completions [] = []"
| "completions (Sent client (CompleteMultipartUploadCommand b k u parts) # evs) =
     parts # completions evs"
| "completions (ev # evs) = completions evs"

fun percents :: "event list \<Rightarrow> jsnum list" where
  "percents [] = []"
| "percents (LoadingText bar percent # evs) = percent # percents evs"
| "percents (ev # evs) = percents evs"

fun is_abort :: "event \<Rightarrow> bool" where
  "is_abort (Sent client (AbortMultipartUploadCommand b k u)) = True"
| "is_abort ev = False"

section \<open>Downloading (download.ts)\<close>







section \<open>Managing objects (file-management.ts)\<close>







section \<open>Buckets (bucket.ts)\<close>











section \<open>Bucket configuration (bucket-config.ts)\<close>








section \<open>The exported operations (index.ts)\<close>




section \<open>Notions used in the statements\<close>






text \<open>\<open>ceil(totalSize / chunkSize)\<close>, the number of parts the specification names.\<close>

definition part_count :: "nat \<Rightarrow> nat \<Rightarrow> nat" where
  "part_count totalSize chunkSize = nat \<lceil>(of_nat totalSize :: rat) / of_nat chunkSize\<rceil>"

text \<open>
  The ranges the specification names, \<open>[i * chunkSize, min((i + 1) * chunkSize, totalSize))\<close>
  for \<open>i < ceil(totalSize / chunkSize)\<close>, as pairs of byte positions. The theorems
  relate them to \<open>chunk_range\<close>, which is what the loop computes.
\<close>

definition part_range :: "nat \<Rightarrow> nat \<Rightarrow> nat \<Rightarrow> nat \<times> nat" where
  "part_range totalSize chunkSize i = (i * chunkSize, min ((i + 1) * chunkSize) totalSize)"

definition part_ranges :: "nat \<Rightarrow> nat \<Rightarrow> (nat \<times> nat) list" where
  "part_ranges totalSize chunkSize =
     map (part_range totalSize chunkSize) [0 ..< part_count totalSize chunkSize]"

text \<open>
  The number of times the loop runs its body when nothing throws: the least natural
  number that is not below the bound \<open>totalSize / chunkSize\<close>, for a bound that is a
  rational number. A bound that is NaN or negative infinity stops the loop at once.
\<close>

definition iterations :: "nat \<Rightarrow> jsnum \<Rightarrow> nat" where
  "iterations totalSize chunkSize =
     (case js_quot (js_num totalSize) chunkSize of Fin r \<Rightarrow> nat \<lceil>r\<rceil> | other \<Rightarrow> 0)"

text \<open>The chunk with index \<open>i\<close> and the command that uploads it as part \<open>i + 1\<close>.\<close>

definition chunk_of :: "byte list \<Rightarrow> jsnum \<Rightarrow> nat \<Rightarrow> byte list" where
  "chunk_of fileBuff chunkSize i =
     slice fileBuff (fst (chunk_range (length fileBuff) chunkSize i))
       (snd (chunk_range (length fileBuff) chunkSize i))"

definition part_command :: "string \<Rightarrow> string \<Rightarrow> string \<Rightarrow> byte list \<Rightarrow> jsnum \<Rightarrow> nat \<Rightarrow> request" where
  "part_command bucket fileName uploadId fileBuff chunkSize i =
     UploadPartCommand bucket fileName uploadId (i + 1) (chunk_of fileBuff chunkSize i)"

text \<open>Each range ends where the next one starts.\<close>

fun contiguous :: "(nat \<times> nat) list \<Rightarrow> bool" where
  "contiguous (r # r' # rs) = (snd r = fst r' \<and> contiguous (r' # rs))"
| "contiguous rs = True"

text \<open>
  Every range is non-empty and lies within \<open>[0, totalSize)\<close>, and every byte position
  below \<open>totalSize\<close> lies in exactly one range.
\<close>

definition covers_once :: "nat \<Rightarrow> (nat \<times> nat) list \<Rightarrow> bool" where
  "covers_once totalSize rs \<longleftrightarrow>
     (\<forall>r \<in> set rs. fst r < snd r \<and> snd r \<le> totalSize) \<and>
     (\<forall>x < totalSize. length (filter (\<lambda>r. fst r \<le> x \<and> x < snd r) rs) = 1)"

text \<open>
  The body of the loop run over a given list of indices: the unrolled loop, which the
  lemmas below relate to \<open>upload_parts\<close>.
\<close>

fun run_parts ::
  "(nat \<Rightarrow> nat \<Rightarrow> jsnum \<Rightarrow> js_error + event) \<Rightarrow> module_state \<Rightarrow> sender \<Rightarrow> string \<Rightarrow> string \<Rightarrow>
   string \<Rightarrow> byte list \<Rightarrow> nat \<Rightarrow> jsnum \<Rightarrow> nat list \<Rightarrow> part list \<Rightarrow> event list \<Rightarrow>
   part list outcome" where
  "run_parts progress st send bucket fileName uploadId fileBuff totalSize chunkSize [] parts trace =
     (Inr parts, trace)"
| "run_parts progress st send bucket fileName uploadId fileBuff totalSize chunkSize (i # rest) parts trace =
     (let chunk = slice fileBuff (fst (chunk_range totalSize chunkSize i))
                       (snd (chunk_range totalSize chunkSize i));
          partNumber = i + 1
      in case uploadPart st send bucket fileName uploadId partNumber chunk of
           (Inl e, sent) \<Rightarrow> (Inl e, trace @ sent)
         | (Inr output, sent) \<Rightarrow>
             (let parts' = parts @ [\<lparr>PartNumber = partNumber, ETag = output_ETag output\<rparr>]
              in case progress partNumber totalSize chunkSize of
                   Inl e \<Rightarrow> (Inl e, trace @ sent)
                 | Inr shown \<Rightarrow>
                     run_parts progress st send bucket fileName uploadId fileBuff totalSize
                       chunkSize rest parts' (trace @ sent @ [shown])))"

text \<open>
  The number of hashes in the bar and the percentage printed, for a file and a chunk size
  of a positive whole number of bytes.
\<close>

definition bar_hashes :: "nat \<Rightarrow> nat \<Rightarrow> nat \<Rightarrow> nat" where
  "bar_hashes p t c = nat \<lfloor>(of_nat (p * c) / of_nat t :: rat) * 50\<rfloor>"

definition shown_percent :: "nat \<Rightarrow> nat \<Rightarrow> nat \<Rightarrow> nat" where
  "shown_percent p t c = nat \<lfloor>(of_nat (p * c) / of_nat t :: rat) * 100 + 1 / 2\<rfloor>"

text \<open>Requests in a trace: which events are requests, by which client, and which were rejected.\<close>

fun is_sent :: "event \<Rightarrow> bool" where
  "is_sent (Sent client command) = True"
| "is_sent ev = False"


fun rejected :: "sender \<Rightarrow> event \<Rightarrow> bool" where
  "rejected send (Sent client command) = isl (send client command)"
| "rejected send ev = False"

text \<open>Fail-fast: a rejected request is the last request of the trace.\<close>

fun fail_fast :: "sender \<Rightarrow> event list \<Rightarrow> bool" where
  "fail_fast send [] = True"
| "fail_fast send (ev # evs) = ((rejected send ev \<longrightarrow> \<not> list_ex is_sent evs) \<and> fail_fast send evs)"

text \<open>
  The ranges split \<open>[0, totalSize)\<close>: as many ranges as \<open>ceil(totalSize / chunkSize)\<close>,
  the first starting at 0, the last ending at \<open>totalSize\<close>, each ending where the next
  starts, and every position covered exactly once.
\<close>

definition exact_partition :: "nat \<Rightarrow> nat \<Rightarrow> (nat \<times> nat) list \<Rightarrow> bool" where
  "exact_partition totalSize chunkSize rs \<longleftrightarrow>
     length rs = part_count totalSize chunkSize \<and> rs \<noteq> [] \<and>
     fst (hd rs) = 0 \<and> snd (last rs) = totalSize \<and>
     contiguous rs \<and> covers_once totalSize rs"

text \<open>
  The progress event of part \<open>p\<close> when the progress line does not throw: the spinner
  text of the tool and the line of the example script.
\<close>

definition cli_shown :: "nat \<Rightarrow> nat \<Rightarrow> nat \<Rightarrow> event" where
  "cli_shown t c p =
     LoadingText (replicate (bar_hashes p t c) CHR ''#'' @ replicate (50 - bar_hashes p t c) CHR '' '')
       (Fin (of_nat (shown_percent p t c)))"

definition example_shown :: "nat \<Rightarrow> nat \<Rightarrow> nat \<Rightarrow> event" where
  "example_shown t c p =
     StdoutProgress (replicate (bar_hashes p t c) CHR ''#'' @ replicate (50 - bar_hashes p t c) CHR ''-'')"

text \<open>The entry of the part list for the part with index \<open>i\<close>, given the output of its upload.\<close>

definition part_entry :: "(nat \<Rightarrow> byte list \<Rightarrow> response) \<Rightarrow> byte list \<Rightarrow> jsnum \<Rightarrow> nat \<Rightarrow> part" where
  "part_entry out fileBuff chunkSize i =
     \<lparr>PartNumber = i + 1, ETag = output_ETag (out (i + 1) (chunk_of fileBuff chunkSize i))\<rparr>"

text \<open>
  What holds of the trace while the loop runs, with \<open>rest\<close> the indices still to come: no
  abort was sent, no request was rejected, nothing was completed, and the part numbers
  sent and still to be sent are all different. And what holds of the trace of a whole
  attempt: no abort, fail-fast, no part number sent twice, at most one completion.
\<close>

definition sound_so_far :: "sender \<Rightarrow> nat list \<Rightarrow> event list \<Rightarrow> bool" where
  "sound_so_far send rest trace \<longleftrightarrow>
     \<not> list_ex is_abort trace \<and> \<not> list_ex (rejected send) trace \<and> completions trace = [] \<and>
     distinct (map fst (uploaded_parts trace) @ map Suc rest)"

definition sound_attempt :: "sender \<Rightarrow> event list \<Rightarrow> bool" where
  "sound_attempt send trace \<longleftrightarrow>
     \<not> list_ex is_abort trace \<and> fail_fast send trace \<and> length (completions trace) \<le> 1 \<and>
     distinct (map fst (uploaded_parts trace))"

section \<open>A concrete store and concrete inputs\<close>

text \<open>
  The statements below are instantiated on these: a client initialised from a
  configuration, a store that accepts every request, and stores that reject the upload of
  one part or every completion.
\<close>

definition demo_config :: R2Config where
  "demo_config =
     \<lparr>accountId = ''account'', accessKeyId = ''key'', secretAccessKey = ''secret'', region = None\<rparr>"

definition ready_state :: module_state where
  "ready_state = initR2Client demo_config initial_state"

definition demo_client :: S3Client where
  "demo_client =
     \<lparr>client_ref = 0, client_region = ''auto'',
      client_endpoint = ''https://account.r2.cloudflarestorage.com'',
      client_accessKeyId = ''key'', client_secretAccessKey = ''secret'', forcePathStyle = True\<rparr>"

definition accepted_output :: response where
  "accepted_output =
     \<lparr>UploadId = Some ''upload-1'', output_ETag = Some ''etag'', VersionId = None,
      Contents = None, NextContinuationToken = None, Uploads = None\<rparr>"

definition accepting_store :: sender where
  "accepting_store client command = Inr accepted_output"

fun rejecting_part :: "nat \<Rightarrow> sender" where
  "rejecting_part k client (UploadPartCommand b key u partNumber body) =
     (if partNumber = k then Inl (ServiceException ''InternalError'' (Some 500))
      else Inr accepted_output)"
| "rejecting_part k client command = Inr accepted_output"

definition chunks_of :: "nat \<Rightarrow> upload_option option" where
  "chunks_of n = Some \<lparr>opt_chunkSize = Some (js_num n), opt_customFileName = None\<rparr>"

section \<open>The loop and its unrolling\<close>

subsection \<open>The loop bound and the unrolled loop\<close>

lemma js_num_eq [simp]: "(js_num a = js_num b) = (a = b)"
  by (simp add: js_num_def)

lemma js_num_nonzero: "0 < c \<Longrightarrow> js_num c \<noteq> Fin 0"
  by (simp add: js_num_def)

lemma js_times_num: "js_times (js_num a) (js_num b) = js_num (a * b)"
  by (simp add: js_num_def)

lemma js_less_num: "js_less (js_num a) (js_num b) = (a < b)"
  by (simp add: js_num_def)

lemma relative_index_num: "relative_index len (js_num k) = min k len"
  by (simp add: js_num_def Let_def)

lemma slice_nat:
  "slice xs (js_num a) (js_num b) =
     take (min b (length xs) - min a (length xs)) (drop (min a (length xs)) xs)"
  by (simp add: slice_def relative_index_num Let_def)

lemma chunk_range_nat:
  "chunk_range t (js_num c) i =
     (js_num (i * c), js_num (if (i + 1) * c > t then t else (i + 1) * c))"
  by (simp add: chunk_range_def js_times_num js_less_num)

lemma chunk_range_part_range:
  "chunk_range t (js_num c) i = (js_num (fst (part_range t c i)), js_num (snd (part_range t c i)))"
  by (simp add: chunk_range_nat part_range_def min_def)

lemma js_less_quot:
  "0 < c \<Longrightarrow> js_less (js_num i) (js_quot (js_num t) (js_num c)) = (i * c < t)"
proof -
  assume c: "0 < c"
  have "((of_nat i :: rat) < of_nat t / of_nat c) = ((of_nat i :: rat) * of_nat c < of_nat t)"
    using c by (simp add: pos_less_divide_eq)
  also have "\<dots> = (i * c < t)"
    by (metis of_nat_less_iff of_nat_mult)
  finally show ?thesis using c by (simp add: js_num_def)
qed

lemma part_count_less: "0 < c \<Longrightarrow> (i < part_count t c) = (i * c < t)"
proof -
  assume c: "0 < c"
  have "(i < part_count t c) = (int i < \<lceil>(of_nat t :: rat) / of_nat c\<rceil>)"
    by (simp add: part_count_def zless_nat_eq_int_zless)
  also have "\<dots> = ((of_nat i :: rat) < of_nat t / of_nat c)"
    by (simp add: less_ceiling_iff)
  also have "\<dots> = ((of_nat i :: rat) * of_nat c < of_nat t)"
    using c by (simp add: pos_less_divide_eq)
  also have "\<dots> = (i * c < t)"
    by (metis of_nat_less_iff of_nat_mult)
  finally show ?thesis .
qed

text \<open>
  With exact rationals the loop reaches every bound but positive infinity, which only a
  chunk size of 0 gives, and \<open>x || d\<close> never gives 0: in the model the loop is the
  unrolled loop over \<open>iterations\<close> indices. For a chunk size that is a whole number
  this is the loop of the code, run \<open>ceil(totalSize / chunkSize)\<close> times.
\<close>

lemma loop_condition:
  assumes c: "chunkSize \<noteq> Fin 0"
  shows "js_less (js_num i) (js_quot (js_num t) chunkSize) = (i < iterations t chunkSize)"
proof (cases chunkSize)
  case (Fin r)
  then have r: "r \<noteq> 0" using c by simp
  have "(i < nat \<lceil>of_nat t / r\<rceil>) = (int i < \<lceil>of_nat t / r\<rceil>)"
    by (simp add: zless_nat_eq_int_zless)
  also have "\<dots> = ((of_nat i :: rat) < of_nat t / r)"
    by (simp add: less_ceiling_iff)
  finally show ?thesis using Fin r by (simp add: iterations_def js_num_def)
qed (simp_all add: iterations_def js_num_def)

lemma iterations_num: "iterations t (js_num c) = part_count t c"
  by (simp add: iterations_def part_count_def js_num_def)

lemma iterations_zero: "chunkSize \<noteq> Fin 0 \<Longrightarrow> iterations 0 chunkSize = 0"
  by (cases chunkSize) (simp_all add: iterations_def js_num_def)

lemma upload_parts_eq:
  assumes c: "chunkSize \<noteq> Fin 0"
  shows "upload_parts progress st send bucket fileName uploadId fileBuff totalSize chunkSize i parts trace =
         Some (run_parts progress st send bucket fileName uploadId fileBuff totalSize chunkSize
                 [i ..< iterations totalSize chunkSize] parts trace)"
proof (induction "iterations totalSize chunkSize - i" arbitrary: i parts trace)
  case 0
  then have "\<not> i < iterations totalSize chunkSize" by simp
  then show ?case using 0
    by (subst upload_parts.simps) (simp add: loop_condition[OF c])
next
  case (Suc k)
  then have lt: "i < iterations totalSize chunkSize" by simp
  have k: "k = iterations totalSize chunkSize - (i + 1)" using Suc.hyps(2) by simp
  have upt: "[i ..< iterations totalSize chunkSize] = i # [i + 1 ..< iterations totalSize chunkSize]"
    using lt by (simp add: upt_conv_Cons)
  show ?case
    apply (subst upload_parts.simps)
    apply (simp only: upt loop_condition[OF c] lt if_True run_parts.simps)
    apply (simp only: Let_def Suc.hyps(1)[OF k] split: prod.splits sum.splits)
    apply simp
    done
qed

lemma upload_parts_nat:
  assumes c: "0 < c"
  shows "upload_parts progress st send bucket fileName uploadId fileBuff totalSize (js_num c) i parts trace =
         Some (run_parts progress st send bucket fileName uploadId fileBuff totalSize (js_num c)
                 [i ..< part_count totalSize c] parts trace)"
  using upload_parts_eq[OF js_num_nonzero[OF c]] by (simp add: iterations_num)


subsection \<open>The progress line\<close>

lemma ratio_fin:
  "0 < t \<Longrightarrow> 0 < c \<Longrightarrow> progress_ratio p t (js_num c) = Fin (of_nat (p * c) / of_nat t)"
  by (simp add: progress_ratio_def js_num_def)

lemma bar_floor_le:
  assumes "0 < t"
  shows "(\<lfloor>(of_nat (p * c) / of_nat t :: rat) * 50\<rfloor> \<le> 50) = (50 * (p * c) < 51 * t)"
proof -
  have "(\<lfloor>(of_nat (p * c) / of_nat t :: rat) * 50\<rfloor> \<le> 50) = ((of_nat (p * c) / of_nat t :: rat) * 50 < 51)"
    by (simp add: floor_le_iff)
  also have "\<dots> = ((of_nat (50 * (p * c)) :: rat) < of_nat (51 * t))"
    using assms by (simp add: pos_divide_less_eq field_simps)
  also have "\<dots> = (50 * (p * c) < 51 * t)"
    by (simp only: of_nat_less_iff)
  finally show ?thesis .
qed


lemma bar_hashes_le: "0 < t \<Longrightarrow> (bar_hashes p t c \<le> 50) = (50 * (p * c) < 51 * t)"
proof -
  assume t: "0 < t"
  have "(nat \<lfloor>(of_nat (p * c) / of_nat t :: rat) * 50\<rfloor> \<le> 50) =
        (\<lfloor>(of_nat (p * c) / of_nat t :: rat) * 50\<rfloor> \<le> 50)"
    by (simp only: nat_le_iff of_nat_numeral)
  then show ?thesis
    unfolding bar_hashes_def using bar_floor_le[OF t, of p c] by (rule trans)
qed

lemma js_repeat_nat: "js_repeat ch (Fin (of_nat n)) = Inr (replicate n ch)"
  by simp

lemma js_repeat_50_minus:
  "js_repeat ch (js_minus (Fin 50) (Fin (of_nat n))) =
     (if n \<le> 50 then Inr (replicate (50 - n) ch) else Inl RangeError)"
proof (cases "n \<le> 50")
  case True
  then have "(50 :: rat) - of_nat n = of_nat (50 - n)" by (simp add: of_nat_diff)
  then show ?thesis using True by (simp only: js_minus.simps js_repeat_nat if_True)
next
  case False
  then have "\<lceil>(50 :: rat) - of_nat n\<rceil> < 0" by (simp add: ceiling_less_iff)
  moreover have "\<not> (0 :: rat) \<le> 50 - of_nat n" using False by simp
  ultimately show ?thesis using False by (simp add: Let_def)
qed

lemma bar_count:
  "0 < t \<Longrightarrow> 0 < c \<Longrightarrow>
   js_floor (js_times (progress_ratio p t (js_num c)) (Fin 50)) = Fin (of_nat (bar_hashes p t c))"
proof -
  assume t: "0 < t" and c: "0 < c"
  have "0 \<le> \<lfloor>(of_nat (p * c) / of_nat t :: rat) * 50\<rfloor>" by simp
  then have "(of_int \<lfloor>(of_nat (p * c) / of_nat t :: rat) * 50\<rfloor> :: rat) = of_nat (bar_hashes p t c)"
    unfolding bar_hashes_def by (metis of_nat_nat)
  then show ?thesis
    by (simp only: ratio_fin[OF t c] js_times.simps js_floor.simps)
qed

lemma percent_shown:
  "0 < t \<Longrightarrow> 0 < c \<Longrightarrow>
   js_toFixed0 (js_times (progress_ratio p t (js_num c)) (Fin 100)) = Fin (of_nat (shown_percent p t c))"
proof -
  assume t: "0 < t" and c: "0 < c"
  have nn: "0 \<le> (of_nat (p * c) / of_nat t :: rat) * 100" by simp
  then have "0 \<le> \<lfloor>(of_nat (p * c) / of_nat t :: rat) * 100 + 1 / 2\<rfloor>" by simp
  then have "(of_int \<lfloor>(of_nat (p * c) / of_nat t :: rat) * 100 + 1 / 2\<rfloor> :: rat) = of_nat (shown_percent p t c)"
    unfolding shown_percent_def by (metis of_nat_nat)
  then show ?thesis using nn
    by (simp only: ratio_fin[OF t c] js_times.simps js_toFixed0.simps if_True)
qed

lemma cli_progress_eq:
  assumes "0 < t" "0 < c"
  shows "cli_progress p t (js_num c) =
           (if 50 * (p * c) < 51 * t
            then Inr (LoadingText (replicate (bar_hashes p t c) CHR ''#'' @ replicate (50 - bar_hashes p t c) CHR '' '')
                  (Fin (of_nat (shown_percent p t c))))
            else Inl RangeError)"
  unfolding cli_progress_def Let_def bar_count[OF assms] percent_shown[OF assms]
    js_repeat_nat js_repeat_50_minus bar_hashes_le[OF assms(1), symmetric]
  by simp

lemma example_progress_eq:
  assumes "0 < t" "0 < c"
  shows "example_progress p t (js_num c) =
           (if 50 * (p * c) < 51 * t
            then Inr (StdoutProgress (replicate (bar_hashes p t c) CHR ''#'' @ replicate (50 - bar_hashes p t c) CHR ''-''))
            else Inl RangeError)"
  unfolding example_progress_def Let_def bar_count[OF assms]
    js_repeat_nat js_repeat_50_minus bar_hashes_le[OF assms(1), symmetric]
  by simp


subsection \<open>Part counts and chunk sizes\<close>

lemma part_count_pos: "0 < c \<Longrightarrow> 0 < t \<Longrightarrow> 0 < part_count t c"
  using part_count_less[of c 0 t] by simp

lemma part_count_zero: "part_count 0 c = 0"
  by (simp add: part_count_def)

lemma part_count_div: "0 < c \<Longrightarrow> 0 < t \<Longrightarrow> part_count t c = (t - 1) div c + 1"
proof -
  assume c: "0 < c" and t: "0 < t"
  have "\<And>i. (i < part_count t c) = (i < (t - 1) div c + 1)"
  proof -
    fix i
    have "(i < part_count t c) = (i * c < t)" by (rule part_count_less[OF c])
    also have "\<dots> = (i * c \<le> t - 1)" using t by auto
    also have "\<dots> = (i \<le> (t - 1) div c)" using c by (simp add: less_eq_div_iff_mult_less_eq)
    also have "\<dots> = (i < (t - 1) div c + 1)" by auto
    finally show "(i < part_count t c) = (i < (t - 1) div c + 1)" .
  qed
  then show ?thesis by (metis less_irrefl_nat linorder_neqE_nat)
qed

lemma cli_chunkSize_nonzero: "cli_chunkSize option \<noteq> Fin 0"
  by (simp add: cli_chunkSize_def num_or_def split: option.splits)

lemma example_chunkSize_nonzero: "example_chunkSize option \<noteq> Fin 0"
  by (simp add: example_chunkSize_def num_or_def split: option.splits)

lemma cli_chunkSize_pos: "cli_chunkSize option = js_num c \<Longrightarrow> 0 < c"
  using cli_chunkSize_nonzero[of option] by (cases c) (auto simp: js_num_def)

lemma example_chunkSize_pos: "example_chunkSize option = js_num c \<Longrightarrow> 0 < c"
  using example_chunkSize_nonzero[of option] by (cases c) (auto simp: js_num_def)

subsection \<open>Runs of the unrolled loop\<close>

lemma uploadPart_client:
  "defaultR2Client st = Some client \<Longrightarrow>
   uploadPart st send b k u p body =
     (send client (UploadPartCommand b k u p body), [Sent client (UploadPartCommand b k u p body)])"
  by (simp add: uploadPart_def getR2Client_def client_send_def)

lemma run_parts_append:
  "run_parts progress st send b f u fb t c (xs @ ys) parts trace =
     (case run_parts progress st send b f u fb t c xs parts trace of
        (Inl e, trace') \<Rightarrow> (Inl e, trace')
      | (Inr parts', trace') \<Rightarrow> run_parts progress st send b f u fb t c ys parts' trace')"
  by (induction xs arbitrary: parts trace) (auto simp: Let_def split: prod.splits sum.splits)

lemma run_parts_accepted:
  assumes client: "defaultR2Client st = Some client"
    and acc: "\<And>i. i \<in> set xs \<Longrightarrow> send client (part_command b f u fb c i) = Inr (out i)"
    and prog: "\<And>i. i \<in> set xs \<Longrightarrow> progress (i + 1) (length fb) c = Inr (shown i)"
  shows "run_parts progress st send b f u fb (length fb) c xs parts trace =
           (Inr (parts @ map (\<lambda>i. \<lparr>PartNumber = i + 1, ETag = output_ETag (out i)\<rparr>) xs),
            trace @ concat (map (\<lambda>i. [Sent client (part_command b f u fb c i), shown i]) xs))"
  using acc prog
proof (induction xs arbitrary: parts trace)
  case Nil
  show ?case by simp
next
  case (Cons i xs)
  have a: "send client (UploadPartCommand b f u (Suc i) (chunk_of fb c i)) = Inr (out i)"
    using Cons.prems(1)[of i] by (simp add: part_command_def)
  have p: "progress (Suc i) (length fb) c = Inr (shown i)"
    using Cons.prems(2)[of i] by simp
  have ih: "\<And>parts trace. run_parts progress st send b f u fb (length fb) c xs parts trace =
           (Inr (parts @ map (\<lambda>i. \<lparr>PartNumber = i + 1, ETag = output_ETag (out i)\<rparr>) xs),
            trace @ concat (map (\<lambda>i. [Sent client (part_command b f u fb c i), shown i]) xs))"
    using Cons.IH Cons.prems by simp
  show ?case
    by (simp add: uploadPart_client[OF client] chunk_of_def[symmetric] a p ih part_command_def)
qed


subsection \<open>Reading a trace\<close>

lemma uploaded_parts_append: "uploaded_parts (xs @ ys) = uploaded_parts xs @ uploaded_parts ys"
  by (induction xs rule: uploaded_parts.induct) simp_all

lemma completions_append: "completions (xs @ ys) = completions xs @ completions ys"
  by (induction xs rule: completions.induct) simp_all

lemma percents_append: "percents (xs @ ys) = percents xs @ percents ys"
  by (induction xs rule: percents.induct) simp_all

lemma uploaded_parts_not_sent: "\<not> is_sent ev \<Longrightarrow> uploaded_parts (ev # evs) = uploaded_parts evs"
  by (cases ev) simp_all

lemma completions_not_sent: "\<not> is_sent ev \<Longrightarrow> completions (ev # evs) = completions evs"
  by (cases ev) simp_all

lemma cli_progress_not_sent: "cli_progress p t c = Inr ev \<Longrightarrow> \<not> is_sent ev"
  by (auto simp: cli_progress_def Let_def split: sum.splits)

lemma example_progress_not_sent: "example_progress p t c = Inr ev \<Longrightarrow> \<not> is_sent ev"
  by (auto simp: example_progress_def Let_def split: sum.splits)

lemma uploadPart_cases:
  "uploadPart st send b k u p body = (Inl ClientNotInitialized, []) \<or>
   (\<exists>client. defaultR2Client st = Some client \<and>
      uploadPart st send b k u p body =
        (send client (UploadPartCommand b k u p body), [Sent client (UploadPartCommand b k u p body)]))"
  by (cases "defaultR2Client st") (simp_all add: uploadPart_def getR2Client_def client_send_def)

lemma run_parts_uploads_le:
  assumes benign: "\<And>p t c ev. progress p t c = Inr ev \<Longrightarrow> \<not> is_sent ev"
  shows "length (uploaded_parts (snd (run_parts progress st send b f u fb t c xs parts trace)))
           \<le> length (uploaded_parts trace) + length xs"
proof (induction xs arbitrary: parts trace)
  case Nil
  show ?case by simp
next
  case (Cons i xs)
  let ?body = "slice fb (fst (chunk_range t c i)) (snd (chunk_range t c i))"
  from uploadPart_cases[of st send b f u "i + 1" ?body]
  show ?case
  proof
    assume "uploadPart st send b f u (i + 1) ?body = (Inl ClientNotInitialized, [])"
    then show ?thesis by simp
  next
    assume "\<exists>client. defaultR2Client st = Some client \<and>
      uploadPart st send b f u (i + 1) ?body =
        (send client (UploadPartCommand b f u (i + 1) ?body), [Sent client (UploadPartCommand b f u (i + 1) ?body)])"
    then obtain client where up: "uploadPart st send b f u (i + 1) ?body =
        (send client (UploadPartCommand b f u (i + 1) ?body), [Sent client (UploadPartCommand b f u (i + 1) ?body)])"
      by blast
    show ?thesis
    proof (cases "send client (UploadPartCommand b f u (i + 1) ?body)")
      case (Inl e)
      then show ?thesis using up by (simp add: uploaded_parts_append)
    next
      case (Inr resp)
      show ?thesis
      proof (cases "progress (i + 1) t c")
        case (Inl e)
        then show ?thesis using up Inr by (simp add: uploaded_parts_append)
      next
        case shown: (Inr ev)
        have ns: "uploaded_parts [ev] = []"
          using benign[OF shown] by (simp add: uploaded_parts_not_sent)
        let ?trace' = "trace @ [Sent client (UploadPartCommand b f u (i + 1) ?body)] @ [ev]"
        have "length (uploaded_parts (snd (run_parts progress st send b f u fb t c xs
                 (parts @ [\<lparr>PartNumber = i + 1, ETag = output_ETag resp\<rparr>]) ?trace')))
              \<le> length (uploaded_parts ?trace') + length xs"
          by (rule Cons.IH)
        moreover have "length (uploaded_parts ?trace') = length (uploaded_parts trace) + 1"
          by (simp add: uploaded_parts_append ns)
        ultimately show ?thesis using up Inr shown by simp
      qed
    qed
  qed
qed


subsection \<open>Both functions return\<close>

text \<open>With a chunk size that is absent, 0, NaN or a whole number of bytes.\<close>

lemma createMultipartUpload_cases:
  "createMultipartUpload st send b k ct md = (Inl ClientNotInitialized, []) \<and> defaultR2Client st = None \<or>
   (\<exists>client. defaultR2Client st = Some client \<and>
      createMultipartUpload st send b k ct md =
        (send client (CreateMultipartUploadCommand b k ct md),
         [Sent client (CreateMultipartUploadCommand b k ct md)]))"
  by (cases "defaultR2Client st")
     (simp_all add: createMultipartUpload_def getR2Client_def client_send_def)

lemma completeMultipartUpload_client:
  "defaultR2Client st = Some client \<Longrightarrow>
   completeMultipartUpload st send b k u parts =
     (send client (CompleteMultipartUploadCommand b k u parts),
      [Sent client (CompleteMultipartUploadCommand b k u parts)])"
  by (simp add: completeMultipartUpload_def getR2Client_def client_send_def)

lemma createMultipartUpload_client:
  "defaultR2Client st = Some client \<Longrightarrow>
   createMultipartUpload st send b k ct md =
     (send client (CreateMultipartUploadCommand b k ct md),
      [Sent client (CreateMultipartUploadCommand b k ct md)])"
  by (simp add: createMultipartUpload_def getR2Client_def client_send_def)

lemma cli_chunkSize_whole:
  assumes "option_chunkSize option = None \<or> option_chunkSize option = Some NaN \<or>
           option_chunkSize option = Some (js_num n)"
  shows "cli_chunkSize option =
           js_num (if option_chunkSize option = Some (js_num n) \<and> 0 < n then n else 50 * 1024 * 1024)"
  using assms by (auto simp: cli_chunkSize_def num_or_def js_num_def)

lemma multipartUpload_returns:
  assumes cdef: "cli_chunkSize option = js_num c"
  shows "\<exists>trace. multipartUpload st send bucket filePath fileBytes option = Some (Inr (), trace)"
  by (auto simp: multipartUpload_def cli_try_def Let_def cdef
                 upload_parts_nat[OF cli_chunkSize_pos[OF cdef]]
           split: prod.splits sum.splits option.splits)

lemma example_multipartUpload_returns:
  assumes cdef: "example_chunkSize option = js_num c"
  shows "\<exists>trace. example_multipartUpload st send bucket filePath fileBytes option = Some (Inr (), trace)"
  by (auto simp: example_multipartUpload_def example_try_def Let_def cdef
                 upload_parts_nat[OF example_chunkSize_pos[OF cdef]]
           split: prod.splits sum.splits option.splits)


lemma run_parts_uploads_le':
  assumes benign: "\<And>p t c ev. progress p t c = Inr ev \<Longrightarrow> \<not> is_sent ev"
    and run: "run_parts progress st send b f u fb t c [0 ..< n] [] [Sent client command, ev0] = (x, trace)"
    and start: "uploaded_parts [Sent client command, ev0] = []"
  shows "length (uploaded_parts trace) \<le> n"
proof -
  have "length (uploaded_parts (snd (run_parts progress st send b f u fb t c [0 ..< n] []
            [Sent client command, ev0])))
        \<le> length (uploaded_parts [Sent client command, ev0]) + length [0 ..< n]"
    using benign by (rule run_parts_uploads_le)
  then show ?thesis using run start by simp
qed

lemma cli_try_uploads_le:
  assumes c: "0 < c" and run: "cli_try st send b f fb t (js_num c) = Some (r, trace)"
  shows "length (uploaded_parts trace) \<le> part_count t c"
proof -
  have key: "\<And>u x tr client. run_parts cli_progress st send b f u fb t (js_num c) [0 ..< part_count t c] []
           [Sent client (CreateMultipartUploadCommand b f (Some ''application/octet-stream'') None),
            LoadingStart] = (x, tr) \<Longrightarrow> length (uploaded_parts tr) \<le> part_count t c"
  proof -
    fix u x tr client
    assume r: "run_parts cli_progress st send b f u fb t (js_num c) [0 ..< part_count t c] []
           [Sent client (CreateMultipartUploadCommand b f (Some ''application/octet-stream'') None),
            LoadingStart] = (x, tr)"
    have s: "uploaded_parts [Sent client (CreateMultipartUploadCommand b f (Some ''application/octet-stream'') None),
            LoadingStart] = []" by simp
    show "length (uploaded_parts tr) \<le> part_count t c"
      using cli_progress_not_sent r s by (rule run_parts_uploads_le'[where progress = cli_progress])
  qed
  show ?thesis
    using run
    by (auto simp: cli_try_def upload_parts_nat[OF c] createMultipartUpload_def getR2Client_def
                 client_send_def completeMultipartUpload_def uploaded_parts_append
           dest: key
           split: option.splits sum.splits prod.splits if_splits)
qed

lemma ready_state_client: "defaultR2Client ready_state = Some demo_client"
  by (simp add: ready_state_def initR2Client_def createR2Client_def initial_state_def
                demo_config_def demo_client_def)

lemma part_count_eval:
  "part_count t c = (if c = 0 \<or> t = 0 then 0 else (t - 1) div c + 1)"
  using part_count_div[of c t] by (auto simp: part_count_def)

lemma multipartUpload_uploads_le:
  assumes run: "multipartUpload st send bucket filePath fileBytes option = Some (r, trace)"
    and cdef: "cli_chunkSize option = js_num c"
  shows "length (uploaded_parts trace) \<le> part_count (length fileBytes) c"
proof -
  have c: "0 < c" using cdef by (rule cli_chunkSize_pos)
  show ?thesis
    using run
    by (auto simp: multipartUpload_def Let_def cdef uploaded_parts_append
             dest: cli_try_uploads_le[OF c]
             split: option.splits sum.splits prod.splits)
qed

subsection \<open>Runs in which every part is accepted\<close>

lemma non_final_progress:
  assumes c: "0 < c" and i: "i + 1 < part_count t c"
  shows "50 * ((i + 1) * c) < 51 * t"
proof -
  have "(i + 1) * c < t" using part_count_less[OF c, of "i + 1" t] i by simp
  then show ?thesis by simp
qed

lemma run_parts_all_accepted:
  assumes client: "defaultR2Client st = Some client"
    and c: "0 < c" and t: "0 < length fb"
    and acc: "\<And>i. send client (part_command b f u fb (js_num c) i) = Inr (out i)"
    and prog: "\<And>p. progress p (length fb) (js_num c) =
                 (if 50 * (p * c) < 51 * length fb then Inr (shown p) else Inl RangeError)"
  shows "run_parts progress st send b f u fb (length fb) (js_num c) [0 ..< part_count (length fb) c] [] trace =
     (if 50 * (part_count (length fb) c * c) < 51 * length fb
      then (Inr (map (\<lambda>i. \<lparr>PartNumber = i + 1, ETag = output_ETag (out i)\<rparr>)
                  [0 ..< part_count (length fb) c]),
            trace @ concat (map (\<lambda>i. [Sent client (part_command b f u fb (js_num c) i), shown (i + 1)])
                         [0 ..< part_count (length fb) c]))
      else (Inl RangeError,
            trace @ concat (map (\<lambda>i. [Sent client (part_command b f u fb (js_num c) i), shown (i + 1)])
                         [0 ..< part_count (length fb) c - 1])
              @ [Sent client (part_command b f u fb (js_num c) (part_count (length fb) c - 1))]))"
proof -
  let ?n = "part_count (length fb) c"
  let ?ev = "\<lambda>i. [Sent client (part_command b f u fb (js_num c) i), shown (i + 1)]"
  let ?mk = "\<lambda>i. \<lparr>PartNumber = i + 1, ETag = output_ETag (out i)\<rparr>"
  have "0 < ?n" using part_count_pos[OF c t] .
  then obtain m where m: "?n = Suc m" by (cases ?n) auto
  have early: "\<And>i. i \<in> set [0 ..< m] \<Longrightarrow> progress (i + 1) (length fb) (js_num c) = Inr (shown (i + 1))"
  proof -
    fix i assume "i \<in> set [0 ..< m]"
    then have "i + 1 < ?n" using m by simp
    then have "50 * ((i + 1) * c) < 51 * length fb" by (rule non_final_progress[OF c])
    then show "progress (i + 1) (length fb) (js_num c) = Inr (shown (i + 1))" by (simp add: prog)
  qed
  have first: "run_parts progress st send b f u fb (length fb) (js_num c) [0 ..< m] [] trace =
      (Inr ([] @ map ?mk [0 ..< m]), trace @ concat (map ?ev [0 ..< m]))"
    using client acc early
    by (rule run_parts_accepted[where out = out and shown = "\<lambda>i. shown (i + 1)" and xs = "[0 ..< m]"])
  have a: "send client (UploadPartCommand b f u (Suc m) (chunk_of fb (js_num c) m)) = Inr (out m)"
    using acc[of m] by (simp add: part_command_def)
  have last: "\<And>parts tr. run_parts progress st send b f u fb (length fb) (js_num c) [m] parts tr =
      (if 50 * (Suc m * c) < 51 * length fb
       then (Inr (parts @ [?mk m]), tr @ ?ev m)
       else (Inl RangeError, tr @ [Sent client (part_command b f u fb (js_num c) m)]))"
    by (simp add: uploadPart_client[OF client] chunk_of_def[symmetric] a prog part_command_def)
  have "run_parts progress st send b f u fb (length fb) (js_num c) ([0 ..< m] @ [m]) [] trace =
     (if 50 * (Suc m * c) < 51 * length fb
      then (Inr (map ?mk ([0 ..< m] @ [m])), trace @ concat (map ?ev ([0 ..< m] @ [m])))
      else (Inl RangeError, trace @ concat (map ?ev [0 ..< m]) @ [Sent client (part_command b f u fb (js_num c) m)]))"
    by (simp only: run_parts_append first last prod.case sum.case) simp
  then show ?thesis by (simp add: m)
qed

lemma cli_progress_shown:
  "0 < t \<Longrightarrow> 0 < c \<Longrightarrow>
   cli_progress p t (js_num c) = (if 50 * (p * c) < 51 * t then Inr (cli_shown t c p) else Inl RangeError)"
  by (simp add: cli_progress_eq cli_shown_def)

lemma example_progress_shown:
  "0 < t \<Longrightarrow> 0 < c \<Longrightarrow>
   example_progress p t (js_num c) = (if 50 * (p * c) < 51 * t then Inr (example_shown t c p) else Inl RangeError)"
  by (simp add: example_progress_eq example_shown_def)

lemma cli_try_accepted:
  assumes client: "defaultR2Client st = Some client"
    and created: "send client (CreateMultipartUploadCommand b f (Some ''application/octet-stream'') None)
                    = Inr created"
    and uid: "UploadId created = Some u" "u \<noteq> []"
    and acc: "\<And>p body. send client (UploadPartCommand b f u p body) = Inr (out p body)"
    and c: "0 < c" and t: "0 < length fb"
  shows "cli_try st send b f fb (length fb) (js_num c) =
    Some (if 50 * (part_count (length fb) c * c) < 51 * length fb
      then (case send client (CompleteMultipartUploadCommand b f u
                    (map (part_entry out fb (js_num c)) [0 ..< part_count (length fb) c])) of
              Inl e \<Rightarrow>
                (Inl e,
                 [Sent client (CreateMultipartUploadCommand b f (Some ''application/octet-stream'') None),
                  LoadingStart]
                 @ concat (map (\<lambda>i. [Sent client (part_command b f u fb (js_num c) i), cli_shown (length fb) c (i + 1)])
                            [0 ..< part_count (length fb) c])
                 @ [Sent client (CompleteMultipartUploadCommand b f u
                      (map (part_entry out fb (js_num c)) [0 ..< part_count (length fb) c]))])
            | Inr completed \<Rightarrow>
                (Inr (),
                 [Sent client (CreateMultipartUploadCommand b f (Some ''application/octet-stream'') None),
                  LoadingStart]
                 @ concat (map (\<lambda>i. [Sent client (part_command b f u fb (js_num c) i), cli_shown (length fb) c (i + 1)])
                            [0 ..< part_count (length fb) c])
                 @ [Sent client (CompleteMultipartUploadCommand b f u
                      (map (part_entry out fb (js_num c)) [0 ..< part_count (length fb) c])),
                    ConsoleLog, LoadingSucceed, Prompt]))
      else (Inl RangeError,
            [Sent client (CreateMultipartUploadCommand b f (Some ''application/octet-stream'') None),
             LoadingStart]
            @ concat (map (\<lambda>i. [Sent client (part_command b f u fb (js_num c) i), cli_shown (length fb) c (i + 1)])
                            [0 ..< part_count (length fb) c - 1])
            @ [Sent client (part_command b f u fb (js_num c) (part_count (length fb) c - 1))]))"
proof -
  have acc': "\<And>i. send client (part_command b f u fb (js_num c) i) = Inr (out (i + 1) (chunk_of fb (js_num c) i))"
    by (simp add: part_command_def acc)
  have prog: "\<And>p. cli_progress p (length fb) (js_num c) =
                 (if 50 * (p * c) < 51 * length fb then Inr (cli_shown (length fb) c p) else Inl RangeError)"
    by (rule cli_progress_shown[OF t c])
  have loop: "\<And>trace. run_parts cli_progress st send b f u fb (length fb) (js_num c)
                  [0 ..< part_count (length fb) c] [] trace =
     (if 50 * (part_count (length fb) c * c) < 51 * length fb
      then (Inr (map (\<lambda>i. \<lparr>PartNumber = i + 1, ETag = output_ETag (out (i + 1) (chunk_of fb (js_num c) i))\<rparr>)
                  [0 ..< part_count (length fb) c]),
            trace @ concat (map (\<lambda>i. [Sent client (part_command b f u fb (js_num c) i), cli_shown (length fb) c (i + 1)])
                         [0 ..< part_count (length fb) c]))
      else (Inl RangeError,
            trace @ concat (map (\<lambda>i. [Sent client (part_command b f u fb (js_num c) i), cli_shown (length fb) c (i + 1)])
                         [0 ..< part_count (length fb) c - 1])
              @ [Sent client (part_command b f u fb (js_num c) (part_count (length fb) c - 1))]))"
    using client c t acc' prog by (rule run_parts_all_accepted)
  have pe: "(\<lambda>i. \<lparr>PartNumber = i + 1, ETag = output_ETag (out (i + 1) (chunk_of fb (js_num c) i))\<rparr>)
              = part_entry out fb (js_num c)"
    by (simp add: part_entry_def fun_eq_iff)
  show ?thesis
    by (simp add: cli_try_def createMultipartUpload_client[OF client] created uid
          upload_parts_nat[OF c] loop[unfolded pe] completeMultipartUpload_client[OF client]
          split: sum.splits)
qed


lemma uploaded_parts_steps_cli:
  "uploaded_parts (concat (map (\<lambda>i. [Sent client (part_command b f u fb (js_num c) i), cli_shown t c (Suc i)]) xs))
     = map (\<lambda>i. (Suc i, chunk_of fb (js_num c) i)) xs"
  by (induction xs) (simp_all add: part_command_def cli_shown_def)

lemma completions_steps_cli:
  "completions (concat (map (\<lambda>i. [Sent client (part_command b f u fb (js_num c) i), cli_shown t c (Suc i)]) xs)) = []"
  by (induction xs) (simp_all add: part_command_def cli_shown_def)

lemma percents_steps_cli:
  "percents (concat (map (\<lambda>i. [Sent client (part_command b f u fb (js_num c) i), cli_shown t c (Suc i)]) xs))
     = map (\<lambda>i. Fin (of_nat (shown_percent (Suc i) t c))) xs"
  by (induction xs) (simp_all add: part_command_def cli_shown_def)

lemma uploaded_parts_steps_example:
  "uploaded_parts (concat (map (\<lambda>i. [Sent client (part_command b f u fb (js_num c) i), example_shown t c (Suc i)]) xs))
     = map (\<lambda>i. (Suc i, chunk_of fb (js_num c) i)) xs"
  by (induction xs) (simp_all add: part_command_def example_shown_def)

lemma completions_steps_example:
  "completions (concat (map (\<lambda>i. [Sent client (part_command b f u fb (js_num c) i), example_shown t c (Suc i)]) xs)) = []"
  by (induction xs) (simp_all add: part_command_def example_shown_def)

lemma uploaded_parts_part:
  "uploaded_parts (Sent client (part_command b f u fb c i) # evs) = (Suc i, chunk_of fb c i) # uploaded_parts evs"
  by (simp add: part_command_def)

lemma completions_part:
  "completions (Sent client (part_command b f u fb c i) # evs) = completions evs"
  by (simp add: part_command_def)

lemma upt_last_part: "0 < n \<Longrightarrow> map g [0 ..< n - 1] @ [g (n - 1)] = map g [0 ..< n]"
  by (cases n) simp_all

lemma multipartUpload_accepted:
  assumes client: "defaultR2Client st = Some client"
    and name: "fileName = str_or (option_customFileName option) (getFileName filePath)"
    and created: "send client (CreateMultipartUploadCommand bucket fileName
                    (Some ''application/octet-stream'') None) = Inr created"
    and uid: "UploadId created = Some uploadId" "uploadId \<noteq> []"
    and acc: "\<And>p body. send client (UploadPartCommand bucket fileName uploadId p body) = Inr (out p body)"
    and t: "0 < length fileBytes"
    and cdef: "cli_chunkSize option = js_num c" and ndef: "n = part_count (length fileBytes) c"
  shows "\<exists>trace. multipartUpload st send bucket filePath fileBytes option = Some (Inr (), trace) \<and>
           uploaded_parts trace = map (\<lambda>i. (i + 1, chunk_of fileBytes (js_num c) i)) [0 ..< n] \<and>
           completions trace =
             (if 50 * (n * c) < 51 * length fileBytes then [map (part_entry out fileBytes (js_num c)) [0 ..< n]] else []) \<and>
           percents trace =
             map (\<lambda>i. Fin (of_nat (shown_percent (i + 1) (length fileBytes) c)))
               [0 ..< (if 50 * (n * c) < 51 * length fileBytes then n else n - 1)]"
proof -
  have c: "0 < c" using cdef by (rule cli_chunkSize_pos)
  have n: "0 < n" using ndef part_count_pos[OF c t] by simp
  note run = cli_try_accepted[where send = send and client = client and out = out,
                 OF client created uid acc c t, folded ndef]
  have last: "map (\<lambda>i. (i + 1, chunk_of fileBytes (js_num c) i)) [0 ..< n - 1] @ [(n, chunk_of fileBytes (js_num c) (n - 1))]
               = map (\<lambda>i. (i + 1, chunk_of fileBytes (js_num c) i)) [0 ..< n]"
    using upt_last_part[OF n, of "\<lambda>i. (i + 1, chunk_of fileBytes (js_num c) i)"] n by simp
  show ?thesis
  proof (cases "50 * (n * c) < 51 * length fileBytes")
    case True
    show ?thesis
      using True
      by (cases "send client (CompleteMultipartUploadCommand bucket fileName uploadId
                    (map (part_entry out fileBytes (js_num c)) [0 ..< n]))")
         (simp_all add: multipartUpload_def Let_def name[symmetric] cdef run
            uploaded_parts_append completions_append percents_append
            uploaded_parts_steps_cli completions_steps_cli percents_steps_cli)
  next
    case False
    show ?thesis
      using False n last
      by (simp add: multipartUpload_def Let_def name[symmetric] cdef run
            uploaded_parts_append completions_append percents_append
            uploaded_parts_steps_cli completions_steps_cli percents_steps_cli
            uploaded_parts_part completions_part)
  qed
qed

lemma example_try_accepted:
  assumes client: "defaultR2Client st = Some client"
    and created: "send client (CreateMultipartUploadCommand b f (Some ''application/octet-stream'') None)
                    = Inr created"
    and uid: "UploadId created = Some u" "u \<noteq> []"
    and acc: "\<And>p body. send client (UploadPartCommand b f u p body) = Inr (out p body)"
    and c: "0 < c" and t: "0 < length fb"
  shows "example_try st send b f fb (length fb) (js_num c) =
    Some (if 50 * (part_count (length fb) c * c) < 51 * length fb
      then (case send client (CompleteMultipartUploadCommand b f u
                    (map (part_entry out fb (js_num c)) [0 ..< part_count (length fb) c])) of
              Inl e \<Rightarrow>
                (Inl e,
                 [Sent client (CreateMultipartUploadCommand b f (Some ''application/octet-stream'') None),
                  ConsoleLog]
                 @ concat (map (\<lambda>i. [Sent client (part_command b f u fb (js_num c) i), example_shown (length fb) c (i + 1)])
                            [0 ..< part_count (length fb) c])
                 @ [Sent client (CompleteMultipartUploadCommand b f u
                      (map (part_entry out fb (js_num c)) [0 ..< part_count (length fb) c]))])
            | Inr completed \<Rightarrow>
                (Inr (),
                 [Sent client (CreateMultipartUploadCommand b f (Some ''application/octet-stream'') None),
                  ConsoleLog]
                 @ concat (map (\<lambda>i. [Sent client (part_command b f u fb (js_num c) i), example_shown (length fb) c (i + 1)])
                            [0 ..< part_count (length fb) c])
                 @ [Sent client (CompleteMultipartUploadCommand b f u
                      (map (part_entry out fb (js_num c)) [0 ..< part_count (length fb) c])),
                    StdoutClearLine, ConsoleLog]))
      else (Inl RangeError,
            [Sent client (CreateMultipartUploadCommand b f (Some ''application/octet-stream'') None),
             ConsoleLog]
            @ concat (map (\<lambda>i. [Sent client (part_command b f u fb (js_num c) i), example_shown (length fb) c (i + 1)])
                            [0 ..< part_count (length fb) c - 1])
            @ [Sent client (part_command b f u fb (js_num c) (part_count (length fb) c - 1))]))"
proof -
  have acc': "\<And>i. send client (part_command b f u fb (js_num c) i) = Inr (out (i + 1) (chunk_of fb (js_num c) i))"
    by (simp add: part_command_def acc)
  have prog: "\<And>p. example_progress p (length fb) (js_num c) =
                 (if 50 * (p * c) < 51 * length fb then Inr (example_shown (length fb) c p) else Inl RangeError)"
    by (rule example_progress_shown[OF t c])
  have loop: "\<And>trace. run_parts example_progress st send b f u fb (length fb) (js_num c)
                  [0 ..< part_count (length fb) c] [] trace =
     (if 50 * (part_count (length fb) c * c) < 51 * length fb
      then (Inr (map (\<lambda>i. \<lparr>PartNumber = i + 1, ETag = output_ETag (out (i + 1) (chunk_of fb (js_num c) i))\<rparr>)
                  [0 ..< part_count (length fb) c]),
            trace @ concat (map (\<lambda>i. [Sent client (part_command b f u fb (js_num c) i), example_shown (length fb) c (i + 1)])
                         [0 ..< part_count (length fb) c]))
      else (Inl RangeError,
            trace @ concat (map (\<lambda>i. [Sent client (part_command b f u fb (js_num c) i), example_shown (length fb) c (i + 1)])
                         [0 ..< part_count (length fb) c - 1])
              @ [Sent client (part_command b f u fb (js_num c) (part_count (length fb) c - 1))]))"
    using client c t acc' prog by (rule run_parts_all_accepted)
  have pe: "(\<lambda>i. \<lparr>PartNumber = i + 1, ETag = output_ETag (out (i + 1) (chunk_of fb (js_num c) i))\<rparr>)
              = part_entry out fb (js_num c)"
    by (simp add: part_entry_def fun_eq_iff)
  show ?thesis
    by (simp add: example_try_def createMultipartUpload_client[OF client] created uid
          upload_parts_nat[OF c] loop[unfolded pe] completeMultipartUpload_client[OF client]
          split: sum.splits)
qed



lemma example_multipartUpload_accepted:
  assumes client: "defaultR2Client st = Some client"
    and name: "fileName = str_or (option_customFileName option) (getFileName filePath)"
    and created: "send client (CreateMultipartUploadCommand bucket fileName
                    (Some ''application/octet-stream'') None) = Inr created"
    and uid: "UploadId created = Some uploadId" "uploadId \<noteq> []"
    and acc: "\<And>p body. send client (UploadPartCommand bucket fileName uploadId p body) = Inr (out p body)"
    and t: "0 < length fileBytes"
    and cdef: "example_chunkSize option = js_num c" and ndef: "n = part_count (length fileBytes) c"
  shows "\<exists>trace. example_multipartUpload st send bucket filePath fileBytes option = Some (Inr (), trace) \<and>
           uploaded_parts trace = map (\<lambda>i. (i + 1, chunk_of fileBytes (js_num c) i)) [0 ..< n] \<and>
           completions trace =
             (if 50 * (n * c) < 51 * length fileBytes then [map (part_entry out fileBytes (js_num c)) [0 ..< n]] else [])"
proof -
  have c: "0 < c" using cdef by (rule example_chunkSize_pos)
  have n: "0 < n" using ndef part_count_pos[OF c t] by simp
  note run = example_try_accepted[where send = send and client = client and out = out,
                 OF client created uid acc c t, folded ndef]
  have last: "map (\<lambda>i. (i + 1, chunk_of fileBytes (js_num c) i)) [0 ..< n - 1] @ [(n, chunk_of fileBytes (js_num c) (n - 1))]
               = map (\<lambda>i. (i + 1, chunk_of fileBytes (js_num c) i)) [0 ..< n]"
    using upt_last_part[OF n, of "\<lambda>i. (i + 1, chunk_of fileBytes (js_num c) i)"] n by simp
  show ?thesis
  proof (cases "50 * (n * c) < 51 * length fileBytes")
    case True
    show ?thesis
      using True
      by (cases "send client (CompleteMultipartUploadCommand bucket fileName uploadId
                    (map (part_entry out fileBytes (js_num c)) [0 ..< n]))")
         (simp_all add: example_multipartUpload_def Let_def name[symmetric] cdef run
            uploaded_parts_append completions_append
            uploaded_parts_steps_example completions_steps_example)
  next
    case False
    show ?thesis
      using False n last
      by (simp add: example_multipartUpload_def Let_def name[symmetric] cdef run
            uploaded_parts_append completions_append
            uploaded_parts_steps_example completions_steps_example
            uploaded_parts_part completions_part)
  qed
qed

subsection \<open>Chunks and ranges\<close>

lemma chunk_of_take_drop:
  "chunk_of fb (js_num c) i = take (min ((i + 1) * c) (length fb) - i * c) (drop (i * c) fb)"
  by (auto simp: chunk_of_def chunk_range_nat slice_nat min_def)

lemma length_chunk_of:
  "length (chunk_of fb (js_num c) i) = min ((i + 1) * c) (length fb) - i * c"
  by (auto simp: chunk_of_take_drop min_def)

lemma concat_chunks_take:
  "concat (map (chunk_of fb (js_num c)) [0 ..< m]) = take (m * c) fb"
proof (induction m)
  case 0
  show ?case by simp
next
  case (Suc m)
  have "take (m * c) fb @ chunk_of fb (js_num c) m = take (Suc m * c) fb"
  proof (cases "m * c \<le> length fb")
    case True
    have "take (m * c) fb @ take (min ((m + 1) * c) (length fb) - m * c) (drop (m * c) fb)
            = take (m * c + (min ((m + 1) * c) (length fb) - m * c)) fb"
      by (simp add: take_add)
    also have "m * c + (min ((m + 1) * c) (length fb) - m * c) = min ((m + 1) * c) (length fb)"
      using True by (simp add: min_def)
    also have "take (min ((m + 1) * c) (length fb)) fb = take (Suc m * c) fb"
      by (simp add: min_def)
    finally show ?thesis by (simp add: chunk_of_take_drop)
  next
    case False
    then show ?thesis by (simp add: chunk_of_take_drop)
  qed
  then show ?case using Suc by simp
qed

lemma part_count_covers: "0 < c \<Longrightarrow> t \<le> part_count t c * c"
  using part_count_less[of c "part_count t c" t] by simp

lemma concat_chunks:
  "0 < c \<Longrightarrow> concat (map (chunk_of fb (js_num c)) [0 ..< part_count (length fb) c]) = fb"
  using part_count_covers[of c "length fb"] by (simp add: concat_chunks_take)

lemma part_range_inside:
  assumes c: "0 < c" and i: "i < part_count t c"
  shows "fst (part_range t c i) < snd (part_range t c i) \<and> snd (part_range t c i) \<le> t"
proof -
  have "i * c < t" using part_count_less[OF c] i by simp
  moreover have "i * c < (i + 1) * c" using c by simp
  ultimately show ?thesis by (simp add: part_range_def)
qed

lemma part_range_next:
  assumes c: "0 < c" and i: "i + 1 < part_count t c"
  shows "snd (part_range t c i) = fst (part_range t c (i + 1))"
proof -
  have "(i + 1) * c < t" using part_count_less[OF c, of "i + 1"] i by simp
  then show ?thesis by (simp add: part_range_def)
qed

lemma contiguous_nth:
  "contiguous rs = (\<forall>k. k + 1 < length rs \<longrightarrow> snd (rs ! k) = fst (rs ! (k + 1)))"
proof (induction rs rule: contiguous.induct)
  case (1 r r' rs)
  show ?case
  proof
    assume a: "contiguous (r # r' # rs)"
    show "\<forall>k. k + 1 < length (r # r' # rs) \<longrightarrow> snd ((r # r' # rs) ! k) = fst ((r # r' # rs) ! (k + 1))"
    proof (intro allI impI)
      fix k assume k: "k + 1 < length (r # r' # rs)"
      show "snd ((r # r' # rs) ! k) = fst ((r # r' # rs) ! (k + 1))"
      proof (cases k)
        case 0
        then show ?thesis using a by simp
      next
        case (Suc j)
        then have "j + 1 < length (r' # rs)" using k by simp
        then have "snd ((r' # rs) ! j) = fst ((r' # rs) ! (j + 1))" using a 1 by simp
        then show ?thesis using Suc by simp
      qed
    qed
  next
    assume a: "\<forall>k. k + 1 < length (r # r' # rs) \<longrightarrow> snd ((r # r' # rs) ! k) = fst ((r # r' # rs) ! (k + 1))"
    have "snd r = fst r'" using a[rule_format, of 0] by simp
    moreover have "\<forall>k. k + 1 < length (r' # rs) \<longrightarrow> snd ((r' # rs) ! k) = fst ((r' # rs) ! (k + 1))"
    proof (intro allI impI)
      fix k assume "k + 1 < length (r' # rs)"
      then show "snd ((r' # rs) ! k) = fst ((r' # rs) ! (k + 1))"
        using a[rule_format, of "Suc k"] by simp
    qed
    ultimately show "contiguous (r # r' # rs)" using 1 by simp
  qed
qed simp_all

lemma contiguous_part_ranges: "0 < c \<Longrightarrow> contiguous (part_ranges t c)"
  by (simp add: contiguous_nth part_ranges_def part_range_next)

lemma filter_eq_upt: "k < n \<Longrightarrow> filter (\<lambda>i. i = k) [0 ..< n] = [k]"
proof (induction n)
  case 0
  then show ?case by simp
next
  case (Suc n)
  show ?case
  proof (cases "k < n")
    case True
    then show ?thesis using Suc.IH by simp
  next
    case False
    then have k: "k = n" using Suc.prems by simp
    have "filter (\<lambda>i. i = n) [0 ..< n] = []" by (simp add: filter_empty_conv)
    then show ?thesis using k by simp
  qed
qed

lemma in_chunk_iff:
  assumes c: "0 < c" and x: "x < t"
  shows "(fst (part_range t c i) \<le> x \<and> x < snd (part_range t c i)) = (i = x div c)"
proof -
  have "(i * c \<le> x \<and> x < (i + 1) * c) = (i = x div c)"
  proof
    assume "i * c \<le> x \<and> x < (i + 1) * c"
    then have "x div c = i" by (intro div_nat_eqI) (simp_all add: mult.commute)
    then show "i = x div c" by simp
  next
    assume i: "i = x div c"
    have "x div c * c \<le> x" by simp
    moreover have "x < (x div c + 1) * c"
      using c dividend_less_div_times[of c x] by (simp add: mult.commute)
    ultimately show "i * c \<le> x \<and> x < (i + 1) * c" using i by simp
  qed
  then show ?thesis using x by (auto simp: part_range_def)
qed

lemma covers_once_part_ranges:
  assumes c: "0 < c"
  shows "covers_once t (part_ranges t c)"
proof -
  have inside: "\<forall>r \<in> set (part_ranges t c). fst r < snd r \<and> snd r \<le> t"
    using part_range_inside[OF c] by (auto simp: part_ranges_def)
  have once: "\<forall>x < t. length (filter (\<lambda>r. fst r \<le> x \<and> x < snd r) (part_ranges t c)) = 1"
  proof (intro allI impI)
    fix x assume x: "x < t"
    have "x div c * c \<le> x" by simp
    then have "x div c * c < t" using x by (rule le_less_trans)
    then have k: "x div c < part_count t c" using part_count_less[OF c] by simp
    have "filter (\<lambda>r. fst r \<le> x \<and> x < snd r) (part_ranges t c)
            = map (part_range t c) (filter (\<lambda>i. i = x div c) [0 ..< part_count t c])"
      by (simp add: part_ranges_def filter_map comp_def in_chunk_iff[OF c x])
    then show "length (filter (\<lambda>r. fst r \<le> x \<and> x < snd r) (part_ranges t c)) = 1"
      by (simp add: filter_eq_upt[OF k])
  qed
  show ?thesis unfolding covers_once_def using inside once by blast
qed

lemma last_chunk_length:
  assumes c: "0 < c" and t: "0 < length fb"
  shows "length (chunk_of fb (js_num c) (part_count (length fb) c - 1))
           = (if length fb mod c \<noteq> 0 then length fb mod c else c)"
proof -
  let ?t = "length fb"
  obtain m where m: "?t = Suc m" using t by (cases ?t) auto
  have n: "part_count ?t c - 1 = m div c" using part_count_div[OF c t] m by simp
  have cover: "?t \<le> (m div c + 1) * c"
    using part_count_covers[OF c, of ?t] part_count_div[OF c t] m by simp
  have len: "length (chunk_of fb (js_num c) (m div c)) = ?t - m div c * c"
    using cover by (simp add: length_chunk_of min_def)
  have decomp: "m = m div c * c + m mod c" by simp
  have "?t - m div c * c = Suc (m mod c)" using m decomp by linarith
  moreover have "Suc m mod c = (if Suc (m mod c) = c then 0 else Suc (m mod c))"
    by (rule mod_Suc)
  moreover have "Suc (m mod c) \<le> c" using c by (simp add: Suc_leI)
  ultimately show ?thesis using len n m by auto
qed

lemma exact_partition_part_ranges:
  assumes c: "0 < c" and t: "0 < t"
  shows "exact_partition t c (part_ranges t c)"
proof -
  let ?n = "part_count t c"
  have "0 < ?n" using part_count_pos[OF c t] .
  then obtain m where m: "?n = Suc m" by (cases ?n) auto
  have ne: "part_ranges t c \<noteq> []" using m by (simp add: part_ranges_def)
  have first: "fst (hd (part_ranges t c)) = 0"
    using m by (simp add: part_ranges_def upt_conv_Cons part_range_def del: upt_Suc)
  have "t \<le> Suc m * c" using part_count_covers[OF c, of t] m by simp
  then have last: "snd (last (part_ranges t c)) = t"
    using m by (auto simp: part_ranges_def part_range_def)
  show ?thesis
    unfolding exact_partition_def
    using ne first last contiguous_part_ranges[OF c] covers_once_part_ranges[OF c]
    by (simp add: part_ranges_def)
qed

lemma bodies_are_slices:
  "map snd (map (\<lambda>i. (i + 1, chunk_of fb (js_num c) i)) [0 ..< part_count (length fb) c])
     = map (\<lambda>r. slice fb (js_num (fst r)) (js_num (snd r))) (part_ranges (length fb) c)"
  by (simp add: part_ranges_def chunk_of_def comp_def chunk_range_part_range)

lemma ranges_of_the_loop:
  "map (chunk_range t (js_num c)) [0 ..< part_count t c]
     = map (\<lambda>r. (js_num (fst r), js_num (snd r))) (part_ranges t c)"
  by (simp add: part_ranges_def comp_def chunk_range_part_range)

lemma part_numbers_upt:
  "map fst (map (\<lambda>i. (i + 1, chunk_of fb (js_num c) i)) [0 ..< n]) = [1 ..< n + 1]"
  by (simp add: comp_def map_Suc_upt)

lemma bodies_concat:
  "0 < c \<Longrightarrow>
   concat (map snd (map (\<lambda>i. (i + 1, chunk_of fb (js_num c) i)) [0 ..< part_count (length fb) c])) = fb"
  using concat_chunks[of c fb] by (simp add: comp_def)

lemma part_count_same: "0 < c \<Longrightarrow> part_count c c = 1"
  by (simp add: part_count_eval)

lemma chunk_sizes_of [simp]:
  "0 < n \<Longrightarrow> cli_chunkSize (chunks_of n) = js_num n"
  "0 < n \<Longrightarrow> example_chunkSize (chunks_of n) = js_num n"
  by (simp_all add: cli_chunkSize_def example_chunkSize_def chunks_of_def option_chunkSize_def num_or_def
        js_num_def)

lemma part_ranges_5_2: "part_ranges 5 2 = [(0, 2), (2, 4), (4, 5)]"
  by (simp add: part_ranges_def part_count_eval part_range_def upt_rec)

lemma last_uploaded:
  "0 < n \<Longrightarrow> last (map (\<lambda>i. (i + 1, chunk_of fb (js_num c) i)) [0 ..< n]) = (n, chunk_of fb (js_num c) (n - 1))"
  by (cases n) (simp_all add: last_map)

lemma sizes_125_50:
  assumes "length fb = 125000000"
  shows "map (\<lambda>(partNumber, body). (partNumber, length body))
           (map (\<lambda>i. (i + 1, chunk_of fb (js_num 50000000) i)) [0 ..< part_count 125000000 50000000])
         = [(1, 50000000), (2, 50000000), (3, 25000000)]"
proof -
  have n: "part_count 125000000 50000000 = 3" by (simp add: part_count_eval)
  have l: "[0 ..< 3] = [0, 1, 2]" by (simp add: upt_rec)
  show ?thesis by (simp add: n l length_chunk_of assms)
qed

lemma non_last_chunk_length:
  assumes c: "0 < c" and k: "k + 1 < part_count (length fb) c"
  shows "length (chunk_of fb (js_num c) k) = c"
proof -
  have "(k + 1) * c < length fb" using part_count_less[OF c, of "k + 1"] k by simp
  then show ?thesis by (simp add: length_chunk_of min_def)
qed

lemma non_last_uploaded_length:
  assumes c: "0 < c"
  shows "\<forall>k. k + 1 < length (map (\<lambda>i. (i + 1, chunk_of fb (js_num c) i)) [0 ..< part_count (length fb) c]) \<longrightarrow>
           length (snd (map (\<lambda>i. (i + 1, chunk_of fb (js_num c) i)) [0 ..< part_count (length fb) c] ! k)) = c"
proof (intro allI impI)
  fix k
  assume "k + 1 < length (map (\<lambda>i. (i + 1, chunk_of fb (js_num c) i)) [0 ..< part_count (length fb) c])"
  then have k: "k + 1 < part_count (length fb) c" by simp
  then have "k < part_count (length fb) c" by simp
  then have "map (\<lambda>i. (i + 1, chunk_of fb (js_num c) i)) [0 ..< part_count (length fb) c] ! k
               = (k + 1, chunk_of fb (js_num c) k)"
    by simp
  then show "length (snd (map (\<lambda>i. (i + 1, chunk_of fb (js_num c) i)) [0 ..< part_count (length fb) c] ! k)) = c"
    using non_last_chunk_length[OF c k] by simp
qed

subsection \<open>Evaluation on the concrete inputs\<close>

lemma getFileName_demo [simp]:
  "getFileName ''dir/file.bin'' = ''file.bin''"
  "getFileName ''dir/empty.bin'' = ''empty.bin''"
  by (simp_all add: getFileName_def lastIndexOf_def)

lemma file_name_demo [simp]:
  "str_or (option_customFileName None) ''file.bin'' = ''file.bin''"
  "str_or (option_customFileName (chunks_of n)) ''file.bin'' = ''file.bin''"
  "str_or (option_customFileName None) ''empty.bin'' = ''empty.bin''"
  by (simp_all add: str_or_def option_customFileName_def chunks_of_def)

lemma bar_hashes_eval: "bar_hashes p t c = (50 * (p * c)) div t"
proof -
  have "(of_nat (p * c) / of_nat t :: rat) * 50 = of_nat (50 * (p * c)) / of_nat t" by simp
  then have "\<lfloor>(of_nat (p * c) / of_nat t :: rat) * 50\<rfloor> = \<lfloor>(of_nat (50 * (p * c)) / of_nat t :: rat)\<rfloor>"
    by (simp only:)
  also have "\<dots> = int ((50 * (p * c)) div t)" by (rule floor_divide_of_nat_eq)
  finally show ?thesis by (simp add: bar_hashes_def)
qed

lemma shown_percent_eval: "0 < t \<Longrightarrow> shown_percent p t c = (200 * (p * c) + t) div (2 * t)"
proof -
  assume t: "0 < t"
  have "(of_nat (p * c) / of_nat t :: rat) * 100 + 1 / 2 = of_nat (200 * (p * c) + t) / of_nat (2 * t)"
    using t by (simp add: field_simps)
  then have "\<lfloor>(of_nat (p * c) / of_nat t :: rat) * 100 + 1 / 2\<rfloor>
               = \<lfloor>(of_nat (200 * (p * c) + t) / of_nat (2 * t) :: rat)\<rfloor>"
    by (simp only:)
  also have "\<dots> = int ((200 * (p * c) + t) div (2 * t))" by (rule floor_divide_of_nat_eq)
  finally show ?thesis by (simp add: shown_percent_def)
qed

subsection \<open>Runs in which a part is rejected or the progress line throws\<close>

lemma run_parts_rejected:
  assumes client: "defaultR2Client st = Some client"
    and c: "0 < c"
    and k: "k < part_count (length fb) c"
    and acc: "\<And>i. i < k \<Longrightarrow> send client (part_command b f u fb (js_num c) i) = Inr (out i)"
    and rej: "send client (part_command b f u fb (js_num c) k) = Inl e"
    and prog: "\<And>p. progress p (length fb) (js_num c) =
                 (if 50 * (p * c) < 51 * length fb then Inr (shown p) else Inl RangeError)"
  shows "run_parts progress st send b f u fb (length fb) (js_num c) [0 ..< part_count (length fb) c] [] trace =
     (Inl e,
      trace @ concat (map (\<lambda>i. [Sent client (part_command b f u fb (js_num c) i), shown (i + 1)]) [0 ..< k])
        @ [Sent client (part_command b f u fb (js_num c) k)])"
proof -
  let ?n = "part_count (length fb) c"
  let ?ev = "\<lambda>i. [Sent client (part_command b f u fb (js_num c) i), shown (i + 1)]"
  let ?mk = "\<lambda>i. \<lparr>PartNumber = i + 1, ETag = output_ETag (out i)\<rparr>"
  have split: "[0 ..< ?n] = [0 ..< k] @ (k # [Suc k ..< ?n])"
  proof -
    have "[0 ..< ?n] = [0 ..< k] @ [k ..< ?n]"
      using k upt_add_eq_append[of 0 k "?n - k"] by simp
    then show ?thesis using k by (simp add: upt_conv_Cons)
  qed
  have acc': "\<And>i. i \<in> set [0 ..< k] \<Longrightarrow> send client (part_command b f u fb (js_num c) i) = Inr (out i)"
    using acc by simp
  have early: "\<And>i. i \<in> set [0 ..< k] \<Longrightarrow> progress (i + 1) (length fb) (js_num c) = Inr (shown (i + 1))"
  proof -
    fix i assume "i \<in> set [0 ..< k]"
    then have "i + 1 < ?n" using k by simp
    then have "50 * ((i + 1) * c) < 51 * length fb" by (rule non_final_progress[OF c])
    then show "progress (i + 1) (length fb) (js_num c) = Inr (shown (i + 1))" by (simp add: prog)
  qed
  have first: "run_parts progress st send b f u fb (length fb) (js_num c) [0 ..< k] [] trace =
      (Inr ([] @ map ?mk [0 ..< k]), trace @ concat (map ?ev [0 ..< k]))"
    using client acc' early
    by (rule run_parts_accepted[where out = out and shown = "\<lambda>i. shown (i + 1)" and xs = "[0 ..< k]"])
  have r: "send client (UploadPartCommand b f u (Suc k) (chunk_of fb (js_num c) k)) = Inl e"
    using rej by (simp add: part_command_def)
  have step: "\<And>parts tr rest. run_parts progress st send b f u fb (length fb) (js_num c) (k # rest) parts tr =
      (Inl e, tr @ [Sent client (part_command b f u fb (js_num c) k)])"
    by (simp add: uploadPart_client[OF client] chunk_of_def[symmetric] r part_command_def)
  show ?thesis
    by (subst split) (simp only: run_parts_append first step prod.case sum.case append_assoc)
qed


lemma multipartUpload_rejected:
  assumes client: "defaultR2Client st = Some client"
    and name: "fileName = str_or (option_customFileName option) (getFileName filePath)"
    and created: "send client (CreateMultipartUploadCommand bucket fileName
                    (Some ''application/octet-stream'') None) = Inr created"
    and uid: "UploadId created = Some uploadId" "uploadId \<noteq> []"
    and cdef: "cli_chunkSize option = js_num c"
    and k: "k < part_count (length fileBytes) c"
    and acc: "\<And>i. i < k \<Longrightarrow>
                send client (part_command bucket fileName uploadId fileBytes (js_num c) i) = Inr (out i)"
    and rej: "send client (part_command bucket fileName uploadId fileBytes (js_num c) k) = Inl e"
  shows "multipartUpload st send bucket filePath fileBytes option =
     Some (Inr (),
       [Sent client (CreateMultipartUploadCommand bucket fileName (Some ''application/octet-stream'') None),
        LoadingStart]
       @ concat (map (\<lambda>i. [Sent client (part_command bucket fileName uploadId fileBytes (js_num c) i),
                           cli_shown (length fileBytes) c (Suc i)]) [0 ..< k])
       @ [Sent client (part_command bucket fileName uploadId fileBytes (js_num c) k), LoadingFail, Prompt])"
proof -
  have c: "0 < c" using cdef by (rule cli_chunkSize_pos)
  have t: "0 < length fileBytes"
  proof (rule ccontr)
    assume "\<not> 0 < length fileBytes"
    then have "part_count (length fileBytes) c = 0" by (simp add: part_count_zero)
    then show False using k by simp
  qed
  have prog: "\<And>p. cli_progress p (length fileBytes) (js_num c) =
                 (if 50 * (p * c) < 51 * length fileBytes then Inr (cli_shown (length fileBytes) c p)
                  else Inl RangeError)"
    by (rule cli_progress_shown[OF t c])
  have loop: "\<And>trace. run_parts cli_progress st send bucket fileName uploadId fileBytes (length fileBytes) (js_num c)
                  [0 ..< part_count (length fileBytes) c] [] trace =
     (Inl e,
      trace @ concat (map (\<lambda>i. [Sent client (part_command bucket fileName uploadId fileBytes (js_num c) i),
                                cli_shown (length fileBytes) c (i + 1)]) [0 ..< k])
        @ [Sent client (part_command bucket fileName uploadId fileBytes (js_num c) k)])"
    using client c k acc rej prog by (rule run_parts_rejected)
  show ?thesis
    by (simp add: multipartUpload_def Let_def name[symmetric] cdef cli_try_def
          createMultipartUpload_client[OF client] created uid upload_parts_nat[OF c] loop)
qed

lemma upt_Suc_shift: "map Suc [0 ..< k] = [1 ..< k + 1]"
  by (simp add: map_Suc_upt)

lemma multipartUpload_progress_throws:
  assumes client: "defaultR2Client st = Some client"
    and name: "fileName = str_or (option_customFileName option) (getFileName filePath)"
    and created: "send client (CreateMultipartUploadCommand bucket fileName
                    (Some ''application/octet-stream'') None) = Inr created"
    and uid: "UploadId created = Some uploadId" "uploadId \<noteq> []"
    and acc: "\<And>p body. send client (UploadPartCommand bucket fileName uploadId p body) = Inr (out p body)"
    and t: "0 < length fileBytes"
    and cdef: "cli_chunkSize option = js_num c" and ndef: "n = part_count (length fileBytes) c"
    and over: "51 * length fileBytes \<le> 50 * (n * c)"
  shows "multipartUpload st send bucket filePath fileBytes option =
     Some (Inr (),
       [Sent client (CreateMultipartUploadCommand bucket fileName (Some ''application/octet-stream'') None),
        LoadingStart]
       @ concat (map (\<lambda>i. [Sent client (part_command bucket fileName uploadId fileBytes (js_num c) i),
                           cli_shown (length fileBytes) c (Suc i)]) [0 ..< n - 1])
       @ [Sent client (part_command bucket fileName uploadId fileBytes (js_num c) (n - 1)), LoadingFail, Prompt])"
proof -
  have c: "0 < c" using cdef by (rule cli_chunkSize_pos)
  note run = cli_try_accepted[where send = send and client = client and out = out,
                 OF client created uid acc c t, folded ndef]
  show ?thesis
    using over
    by (simp add: multipartUpload_def Let_def name[symmetric] cdef run)
qed

lemma multipartUpload_completes:
  assumes client: "defaultR2Client st = Some client"
    and name: "fileName = str_or (option_customFileName option) (getFileName filePath)"
    and created: "send client (CreateMultipartUploadCommand bucket fileName
                    (Some ''application/octet-stream'') None) = Inr created"
    and uid: "UploadId created = Some uploadId" "uploadId \<noteq> []"
    and acc: "\<And>p body. send client (UploadPartCommand bucket fileName uploadId p body) = Inr (out p body)"
    and t: "0 < length fileBytes"
    and cdef: "cli_chunkSize option = js_num c" and ndef: "n = part_count (length fileBytes) c"
    and under: "50 * (n * c) < 51 * length fileBytes"
    and completed: "send client (CompleteMultipartUploadCommand bucket fileName uploadId
                      (map (part_entry out fileBytes (js_num c)) [0 ..< n])) = Inr result"
  shows "multipartUpload st send bucket filePath fileBytes option =
     Some (Inr (),
       [Sent client (CreateMultipartUploadCommand bucket fileName (Some ''application/octet-stream'') None),
        LoadingStart]
       @ concat (map (\<lambda>i. [Sent client (part_command bucket fileName uploadId fileBytes (js_num c) i),
                           cli_shown (length fileBytes) c (Suc i)]) [0 ..< n])
       @ [Sent client (CompleteMultipartUploadCommand bucket fileName uploadId
                         (map (part_entry out fileBytes (js_num c)) [0 ..< n])),
          ConsoleLog, LoadingSucceed, Prompt])"
proof -
  have c: "0 < c" using cdef by (rule cli_chunkSize_pos)
  note run = cli_try_accepted[where send = send and client = client and out = out,
                 OF client created uid acc c t, folded ndef]
  show ?thesis
    using under completed
    by (simp add: multipartUpload_def Let_def name[symmetric] cdef run)
qed

lemma rejected_run_trace:
  "multipartUpload ready_state (rejecting_part 2) ''bucket'' ''dir/file.bin'' [1, 2, 3, 4, 5] (chunks_of 1) =
     Some (Inr (),
       [Sent demo_client
          (CreateMultipartUploadCommand ''bucket'' ''file.bin'' (Some ''application/octet-stream'') None),
        LoadingStart,
        Sent demo_client (UploadPartCommand ''bucket'' ''file.bin'' ''upload-1'' 1 [1]),
        LoadingText (replicate 10 CHR ''#'' @ replicate 40 CHR '' '') (Fin 20),
        Sent demo_client (UploadPartCommand ''bucket'' ''file.bin'' ''upload-1'' 2 [2]),
        LoadingFail, Prompt])"
proof -
  have "multipartUpload ready_state (rejecting_part 2) ''bucket'' ''dir/file.bin'' [1, 2, 3, 4, 5] (chunks_of 1) =
     Some (Inr (),
       [Sent demo_client (CreateMultipartUploadCommand ''bucket'' ''file.bin''
           (Some ''application/octet-stream'') None),
        LoadingStart]
       @ concat (map (\<lambda>i. [Sent demo_client (part_command ''bucket'' ''file.bin'' ''upload-1'' [1, 2, 3, 4, 5] (js_num 1) i),
                           cli_shown (length [1, 2, 3, 4, 5 :: byte]) 1 (Suc i)]) [0 ..< 1])
       @ [Sent demo_client (part_command ''bucket'' ''file.bin'' ''upload-1'' [1, 2, 3, 4, 5] (js_num 1) 1),
          LoadingFail, Prompt])"
    by (rule multipartUpload_rejected[where created = accepted_output and out = "\<lambda>i. accepted_output"])
       (simp_all add: ready_state_client accepted_output_def part_count_eval part_command_def)
  then show ?thesis
    by (simp add: part_command_def chunk_of_def chunk_range_nat slice_nat cli_shown_def
          bar_hashes_eval shown_percent_eval)
qed

subsection \<open>What every attempt satisfies\<close>

lemma run_parts_invariant:
  assumes benign: "\<And>p t c ev. progress p t c = Inr ev \<Longrightarrow> \<not> is_sent ev"
    and init: "I xs trace"
    and noclient: "\<And>i rest tr. I (i # rest) tr \<Longrightarrow> defaultR2Client st = None \<Longrightarrow> F tr"
    and reject: "\<And>i rest tr client e. I (i # rest) tr \<Longrightarrow> defaultR2Client st = Some client \<Longrightarrow>
                   send client (part_command b f u fb c i) = Inl e \<Longrightarrow>
                   F (tr @ [Sent client (part_command b f u fb c i)])"
    and throw: "\<And>i rest tr client r. I (i # rest) tr \<Longrightarrow> defaultR2Client st = Some client \<Longrightarrow>
                   send client (part_command b f u fb c i) = Inr r \<Longrightarrow>
                   F (tr @ [Sent client (part_command b f u fb c i)])"
    and step: "\<And>i rest tr client r ev. I (i # rest) tr \<Longrightarrow> defaultR2Client st = Some client \<Longrightarrow>
                   send client (part_command b f u fb c i) = Inr r \<Longrightarrow> \<not> is_sent ev \<Longrightarrow>
                   I rest (tr @ [Sent client (part_command b f u fb c i), ev])"
  shows "case run_parts progress st send b f u fb (length fb) c xs parts trace of
           (Inr ps, tr) \<Rightarrow> I [] tr
         | (Inl e, tr) \<Rightarrow> F tr"
  using init
proof (induction xs arbitrary: parts trace)
  case Nil
  then show ?case by simp
next
  case (Cons i xs)
  show ?case
  proof (cases "defaultR2Client st")
    case None
    then show ?thesis
      using noclient[OF Cons.prems None]
      by (simp add: uploadPart_def getR2Client_def)
  next
    case (Some client)
    show ?thesis
    proof (cases "send client (part_command b f u fb c i)")
      case (Inl e)
      then show ?thesis
        using reject[OF Cons.prems Some Inl]
        by (simp add: uploadPart_client[OF Some] chunk_of_def[symmetric] part_command_def)
    next
      case (Inr r)
      show ?thesis
      proof (cases "progress (i + 1) (length fb) c")
        case (Inl e)
        then show ?thesis
          using throw[OF Cons.prems Some Inr] Inr
          by (simp add: uploadPart_client[OF Some] chunk_of_def[symmetric] part_command_def)
      next
        case shown: (Inr ev)
        have "I xs (trace @ [Sent client (part_command b f u fb c i), ev])"
          using Cons.prems Some Inr benign[OF shown] by (rule step)
        then have "case run_parts progress st send b f u fb (length fb) c xs
                          (parts @ [\<lparr>PartNumber = i + 1, ETag = output_ETag r\<rparr>])
                          (trace @ [Sent client (part_command b f u fb c i), ev]) of
                     (Inr ps, tr) \<Rightarrow> I [] tr
                   | (Inl e, tr) \<Rightarrow> F tr"
          by (rule Cons.IH)
        then show ?thesis
          using Inr shown
          by (simp add: uploadPart_client[OF Some] chunk_of_def[symmetric] part_command_def)
      qed
    qed
  qed
qed

lemma not_sent_quiet: "\<not> is_sent ev \<Longrightarrow> \<not> is_abort ev \<and> \<not> rejected send ev"
  by (cases ev) simp_all

lemma part_command_quiet [simp]: "\<not> is_abort (Sent client (part_command b f u fb c i))"
  by (simp add: part_command_def)

lemma fail_fast_accepted: "\<not> list_ex (rejected send) tr \<Longrightarrow> fail_fast send tr"
  by (induction tr) simp_all

lemma fail_fast_snoc: "\<not> list_ex (rejected send) tr \<Longrightarrow> fail_fast send (tr @ [ev])"
  by (induction tr) simp_all

lemma fail_fast_quiet:
  "fail_fast send tr \<Longrightarrow> \<not> list_ex is_sent q \<Longrightarrow> fail_fast send (tr @ q)"
proof (induction tr)
  case Nil
  have "\<not> list_ex (rejected send) q"
    using Nil(2) not_sent_quiet by (auto simp: list_ex_iff)
  then show ?case by (simp add: fail_fast_accepted)
next
  case (Cons ev tr)
  then show ?case by (auto simp: list_ex_iff)
qed

lemma uploaded_parts_quiet: "\<not> list_ex is_sent q \<Longrightarrow> uploaded_parts q = []"
  by (induction q) (simp_all add: uploaded_parts_not_sent)

lemma completions_quiet: "\<not> list_ex is_sent q \<Longrightarrow> completions q = []"
  by (induction q) (simp_all add: completions_not_sent)

lemma aborts_quiet: "\<not> list_ex is_sent q \<Longrightarrow> \<not> list_ex is_abort q"
  using not_sent_quiet by (auto simp: list_ex_iff)

lemma sound_attempt_quiet:
  "sound_attempt send tr \<Longrightarrow> \<not> list_ex is_sent q \<Longrightarrow> sound_attempt send (tr @ q)"
  by (simp add: sound_attempt_def fail_fast_quiet uploaded_parts_append completions_append
        uploaded_parts_quiet completions_quiet aborts_quiet)

lemma sound_so_far_attempt: "sound_so_far send rest tr \<Longrightarrow> sound_attempt send tr"
  by (simp add: sound_so_far_def sound_attempt_def fail_fast_accepted)

lemma sound_so_far_part:
  "sound_so_far send (i # rest) tr \<Longrightarrow>
   sound_attempt send (tr @ [Sent client (part_command b f u fb c i)])"
  by (simp add: sound_so_far_def sound_attempt_def fail_fast_snoc uploaded_parts_append
        completions_append uploaded_parts_part completions_part)

lemma sound_so_far_step:
  "sound_so_far send (i # rest) tr \<Longrightarrow> send client (part_command b f u fb c i) = Inr r \<Longrightarrow>
   \<not> is_sent ev \<Longrightarrow>
   sound_so_far send rest (tr @ [Sent client (part_command b f u fb c i), ev])"
  using not_sent_quiet[of ev send]
  by (simp add: sound_so_far_def uploaded_parts_append completions_append uploaded_parts_part
        completions_part uploaded_parts_not_sent completions_not_sent)

lemma sound_so_far_complete:
  "sound_so_far send [] tr \<Longrightarrow>
   sound_attempt send (tr @ [Sent client (CompleteMultipartUploadCommand b f u ps)])"
  by (simp add: sound_so_far_def sound_attempt_def fail_fast_snoc uploaded_parts_append
        completions_append)

lemma run_parts_sound:
  assumes benign: "\<And>p t c ev. progress p t c = Inr ev \<Longrightarrow> \<not> is_sent ev"
    and init: "sound_so_far send xs trace"
  shows "case run_parts progress st send b f u fb (length fb) c xs parts trace of
           (Inr ps, tr) \<Rightarrow> sound_so_far send [] tr
         | (Inl e, tr) \<Rightarrow> sound_attempt send tr"
  using benign init
proof (rule run_parts_invariant[where I = "sound_so_far send" and F = "sound_attempt send"])
  fix i rest tr
  assume "sound_so_far send (i # rest) tr"
  then show "sound_attempt send tr" by (rule sound_so_far_attempt)
next
  fix i rest tr client e
  assume "sound_so_far send (i # rest) tr"
  then show "sound_attempt send (tr @ [Sent client (part_command b f u fb c i)])"
    by (rule sound_so_far_part)
next
  fix i rest tr client r
  assume "sound_so_far send (i # rest) tr"
  then show "sound_attempt send (tr @ [Sent client (part_command b f u fb c i)])"
    by (rule sound_so_far_part)
next
  fix i rest tr client r ev
  assume "sound_so_far send (i # rest) tr" "send client (part_command b f u fb c i) = Inr r"
    "\<not> is_sent ev"
  then show "sound_so_far send rest (tr @ [Sent client (part_command b f u fb c i), ev])"
    by (rule sound_so_far_step)
qed


lemma cli_try_sound:
  assumes c: "c \<noteq> Fin 0" and run: "cli_try st send b f fb (length fb) c = Some (r, trace)"
  shows "sound_attempt send trace"
proof (cases "defaultR2Client st")
  case None
  then have "trace = []"
    using run by (simp add: cli_try_def createMultipartUpload_def getR2Client_def)
  then show ?thesis by (simp add: sound_attempt_def)
next
  case (Some client)
  let ?create = "CreateMultipartUploadCommand b f (Some ''application/octet-stream'') None"
  have only_create: "sound_attempt send [Sent client ?create]"
    by (simp add: sound_attempt_def)
  show ?thesis
  proof (cases "send client ?create")
    case (Inl e)
    then have "trace = [Sent client ?create]"
      using run by (simp add: cli_try_def createMultipartUpload_client[OF Some])
    then show ?thesis using only_create by simp
  next
    case (Inr created)
    show ?thesis
    proof (cases "truthy_str (UploadId created)")
      case False
      then have "trace = [Sent client ?create]"
        using run Inr
        by (cases "UploadId created")
           (simp_all add: cli_try_def createMultipartUpload_client[OF Some])
      then show ?thesis using only_create by simp
    next
      case True
      then obtain u where u: "UploadId created = Some u" "u \<noteq> []"
        by (cases "UploadId created") simp_all
      let ?start = "[Sent client ?create, LoadingStart]"
      let ?loop = "run_parts cli_progress st send b f u fb (length fb) c [0 ..< iterations (length fb) c] [] ?start"
      have init: "sound_so_far send [0 ..< iterations (length fb) c] ?start"
        using Inr by (simp add: sound_so_far_def distinct_map)
      have inv: "case ?loop of (Inr ps, tr) \<Rightarrow> sound_so_far send [] tr | (Inl e, tr) \<Rightarrow> sound_attempt send tr"
        using cli_progress_not_sent init by (rule run_parts_sound)
      obtain x tr where loop: "?loop = (x, tr)" by (cases ?loop)
      show ?thesis
      proof (cases x)
        case (Inl e)
        then have "trace = tr"
          using run Inr u loop
          by (simp add: cli_try_def createMultipartUpload_client[OF Some] upload_parts_eq[OF c])
        then show ?thesis using inv loop Inl by simp
      next
        case ps: (Inr ps)
        let ?complete = "CompleteMultipartUploadCommand b f u ps"
        have sent_complete: "sound_attempt send (tr @ [Sent client ?complete])"
          using inv loop ps by (simp add: sound_so_far_complete)
        show ?thesis
        proof (cases "send client ?complete")
          case (Inl e)
          then have "trace = tr @ [Sent client ?complete]"
            using run Inr u loop ps
            by (simp add: cli_try_def createMultipartUpload_client[OF Some] upload_parts_eq[OF c]
                  completeMultipartUpload_client[OF Some])
          then show ?thesis using sent_complete by simp
        next
          case (Inr completed)
          then have "trace = (tr @ [Sent client ?complete]) @ [ConsoleLog, LoadingSucceed, Prompt]"
            using run \<open>send client ?create = Inr created\<close> u loop ps
            by (simp add: cli_try_def createMultipartUpload_client[OF Some] upload_parts_eq[OF c]
                  completeMultipartUpload_client[OF Some])
          then show ?thesis using sound_attempt_quiet[OF sent_complete, of "[ConsoleLog, LoadingSucceed, Prompt]"] by simp
        qed
      qed
    qed
  qed
qed

lemma multipartUpload_sound:
  assumes "multipartUpload st send bucket filePath fileBytes option = Some (r, trace)"
  shows "sound_attempt send trace"
proof -
  let ?block = "cli_try st send bucket (str_or (option_customFileName option) (getFileName filePath))
                fileBytes (length fileBytes) (cli_chunkSize option)"
  obtain r' tr where t: "?block = Some (r', tr)"
    using assms by (cases ?block) (auto simp: multipartUpload_def Let_def)
  have s: "sound_attempt send tr" using cli_chunkSize_nonzero t by (rule cli_try_sound)
  show ?thesis
  proof (cases r')
    case (Inl e)
    then have "trace = tr @ [LoadingFail, Prompt]"
      using assms t by (simp add: multipartUpload_def Let_def)
    then show ?thesis using sound_attempt_quiet[OF s, of "[LoadingFail, Prompt]"] by simp
  next
    case (Inr v)
    then have "trace = tr" using assms t by (simp add: multipartUpload_def Let_def)
    then show ?thesis using s by simp
  qed
qed

subsection \<open>The client of the exported operations\<close>












subsection \<open>What an operation sends once the client exists\<close>










section \<open>The claims\<close>

text \<open>
  C1. In a run in which the store accepts the creation and every part, on a file of
  \<open>totalSize > 0\<close> bytes and with a chunk size that is a whole number of bytes, the
  bodies uploaded are the slices of the file at the ranges
  \<open>[i * chunkSize, min((i + 1) * chunkSize, totalSize))\<close> for
  \<open>i < ceil(totalSize / chunkSize)\<close>, in this order: these are the ranges the loop
  computes. They are contiguous, cover \<open>[0, totalSize)\<close> exactly once and the bodies
  put together are the file; when \<open>totalSize = chunkSize\<close> there is exactly one part.
  This holds for the tool and for the example script, each with its own chunk size, and
  every positive whole chunk size can be chosen through the option.
\<close>

theorem C1_ranges_cover_file_once:
  assumes client: "defaultR2Client st = Some client"
    and name: "fileName = str_or (option_customFileName option) (getFileName filePath)"
    and created: "send client (CreateMultipartUploadCommand bucket fileName
                    (Some ''application/octet-stream'') None) = Inr created"
    and uid: "UploadId created = Some uploadId" "uploadId \<noteq> []"
    and acc: "\<And>p body. send client (UploadPartCommand bucket fileName uploadId p body) = Inr (out p body)"
    and t: "totalSize = length fileBytes" "0 < totalSize"
    and cli: "cli_chunkSize option = js_num chunkSize"
    and example: "example_chunkSize option = js_num chunkSize'"
  shows "(\<exists>trace. multipartUpload st send bucket filePath fileBytes option = Some (Inr (), trace) \<and>
            map snd (uploaded_parts trace)
              = map (\<lambda>r. slice fileBytes (js_num (fst r)) (js_num (snd r))) (part_ranges totalSize chunkSize) \<and>
            concat (map snd (uploaded_parts trace)) = fileBytes \<and>
            (totalSize = chunkSize \<longrightarrow> length (uploaded_parts trace) = 1)) \<and>
         map (chunk_range totalSize (cli_chunkSize option)) [0 ..< part_count totalSize chunkSize]
           = map (\<lambda>r. (js_num (fst r), js_num (snd r))) (part_ranges totalSize chunkSize) \<and>
         exact_partition totalSize chunkSize (part_ranges totalSize chunkSize) \<and>
         (\<exists>trace. example_multipartUpload st send bucket filePath fileBytes option = Some (Inr (), trace) \<and>
            map snd (uploaded_parts trace)
              = map (\<lambda>r. slice fileBytes (js_num (fst r)) (js_num (snd r))) (part_ranges totalSize chunkSize') \<and>
            concat (map snd (uploaded_parts trace)) = fileBytes \<and>
            (totalSize = chunkSize' \<longrightarrow> length (uploaded_parts trace) = 1)) \<and>
         map (chunk_range totalSize (example_chunkSize option)) [0 ..< part_count totalSize chunkSize']
           = map (\<lambda>r. (js_num (fst r), js_num (snd r))) (part_ranges totalSize chunkSize') \<and>
         exact_partition totalSize chunkSize' (part_ranges totalSize chunkSize') \<and>
         (\<forall>chosen name. 0 < chosen \<longrightarrow>
            cli_chunkSize (Some \<lparr>opt_chunkSize = Some (js_num chosen), opt_customFileName = name\<rparr>)
              = js_num chosen \<and>
            example_chunkSize (Some \<lparr>opt_chunkSize = Some (js_num chosen), opt_customFileName = name\<rparr>)
              = js_num chosen)"
proof -
  have tpos: "0 < length fileBytes" using t by simp
  have c1: "0 < chunkSize" using cli by (rule cli_chunkSize_pos)
  have c2: "0 < chunkSize'" using example by (rule example_chunkSize_pos)
  obtain trace1 where run1: "multipartUpload st send bucket filePath fileBytes option = Some (Inr (), trace1)"
    and up1: "uploaded_parts trace1 = map (\<lambda>i. (i + 1, chunk_of fileBytes (js_num chunkSize) i))
                 [0 ..< part_count (length fileBytes) chunkSize]"
    using multipartUpload_accepted[where send = send and client = client and out = out,
            OF client name created uid acc tpos cli refl] by blast
  obtain trace2 where run2: "example_multipartUpload st send bucket filePath fileBytes option = Some (Inr (), trace2)"
    and up2: "uploaded_parts trace2 = map (\<lambda>i. (i + 1, chunk_of fileBytes (js_num chunkSize') i))
                 [0 ..< part_count (length fileBytes) chunkSize']"
    using example_multipartUpload_accepted[where send = send and client = client and out = out,
            OF client name created uid acc tpos example refl] by blast
  have a1: "map snd (uploaded_parts trace1)
              = map (\<lambda>r. slice fileBytes (js_num (fst r)) (js_num (snd r))) (part_ranges totalSize chunkSize)"
    unfolding up1 t(1) by (rule bodies_are_slices)
  have b1: "concat (map snd (uploaded_parts trace1)) = fileBytes"
    unfolding up1 using c1 by (rule bodies_concat)
  have d1: "totalSize = chunkSize \<longrightarrow> length (uploaded_parts trace1) = 1"
    using part_count_same[OF c1] t(1) by (simp add: up1)
  have a2: "map snd (uploaded_parts trace2)
              = map (\<lambda>r. slice fileBytes (js_num (fst r)) (js_num (snd r))) (part_ranges totalSize chunkSize')"
    unfolding up2 t(1) by (rule bodies_are_slices)
  have b2: "concat (map snd (uploaded_parts trace2)) = fileBytes"
    unfolding up2 using c2 by (rule bodies_concat)
  have d2: "totalSize = chunkSize' \<longrightarrow> length (uploaded_parts trace2) = 1"
    using part_count_same[OF c2] t(1) by (simp add: up2)
  have r1: "map (chunk_range totalSize (cli_chunkSize option)) [0 ..< part_count totalSize chunkSize]
              = map (\<lambda>r. (js_num (fst r), js_num (snd r))) (part_ranges totalSize chunkSize)"
    unfolding cli by (rule ranges_of_the_loop)
  have r2: "map (chunk_range totalSize (example_chunkSize option)) [0 ..< part_count totalSize chunkSize']
              = map (\<lambda>r. (js_num (fst r), js_num (snd r))) (part_ranges totalSize chunkSize')"
    unfolding example by (rule ranges_of_the_loop)
  have e1: "exact_partition totalSize chunkSize (part_ranges totalSize chunkSize)"
    using c1 t(2) by (rule exact_partition_part_ranges)
  have e2: "exact_partition totalSize chunkSize' (part_ranges totalSize chunkSize')"
    using c2 t(2) by (rule exact_partition_part_ranges)
  have every: "\<forall>chosen name. 0 < chosen \<longrightarrow>
            cli_chunkSize (Some \<lparr>opt_chunkSize = Some (js_num chosen), opt_customFileName = name\<rparr>)
              = js_num chosen \<and>
            example_chunkSize (Some \<lparr>opt_chunkSize = Some (js_num chosen), opt_customFileName = name\<rparr>)
              = js_num chosen"
    by (simp add: cli_chunkSize_def example_chunkSize_def option_chunkSize_def num_or_def js_num_def)
  from run1 a1 b1 d1 have first: "\<exists>trace. multipartUpload st send bucket filePath fileBytes option = Some (Inr (), trace) \<and>
            map snd (uploaded_parts trace)
              = map (\<lambda>r. slice fileBytes (js_num (fst r)) (js_num (snd r))) (part_ranges totalSize chunkSize) \<and>
            concat (map snd (uploaded_parts trace)) = fileBytes \<and>
            (totalSize = chunkSize \<longrightarrow> length (uploaded_parts trace) = 1)"
    by blast
  from run2 a2 b2 d2 have second: "\<exists>trace. example_multipartUpload st send bucket filePath fileBytes option = Some (Inr (), trace) \<and>
            map snd (uploaded_parts trace)
              = map (\<lambda>r. slice fileBytes (js_num (fst r)) (js_num (snd r))) (part_ranges totalSize chunkSize') \<and>
            concat (map snd (uploaded_parts trace)) = fileBytes \<and>
            (totalSize = chunkSize' \<longrightarrow> length (uploaded_parts trace) = 1)"
    by blast
  from first r1 e1 second r2 e2 every show ?thesis by (intro conjI)
qed

theorem C1_witness:
  "(\<exists>trace. multipartUpload ready_state accepting_store ''bucket'' ''dir/file.bin'' [1, 2, 3, 4, 5] (chunks_of 2)
              = Some (Inr (), trace) \<and>
            map snd (uploaded_parts trace) = [[1, 2], [3, 4], [5]] \<and>
            concat (map snd (uploaded_parts trace)) = [1, 2, 3, 4, 5]) \<and>
   map (chunk_range 5 (js_num 2)) [0 ..< 3] = [(js_num 0, js_num 2), (js_num 2, js_num 4), (js_num 4, js_num 5)] \<and>
   exact_partition 5 2 [(0, 2), (2, 4), (4, 5)]"
proof -
  have n: "part_count 5 2 = 3" by (simp add: part_count_eval)
  note C1_ranges_cover_file_once
         [where st = ready_state and client = demo_client and send = accepting_store
            and option = "chunks_of 2" and filePath = "''dir/file.bin''" and bucket = "''bucket''"
            and fileName = "str_or (option_customFileName (chunks_of 2)) (getFileName ''dir/file.bin'')"
            and created = accepted_output and uploadId = "''upload-1''"
            and out = "\<lambda>p body. accepted_output" and totalSize = 5
            and chunkSize = 2 and chunkSize' = 2
            and fileBytes = "[1, 2, 3, 4, 5]"]
  then show ?thesis
    by (simp add: ready_state_client accepting_store_def accepted_output_def part_ranges_5_2 slice_nat n)
qed

text \<open>
  C2. In a run of the tool in which the store accepts the creation and every part, on a
  file of \<open>totalSize > 0\<close> bytes and with a chunk size of \<open>chunkSize\<close> bytes, a whole
  number, the last part uploaded has \<open>totalSize mod chunkSize\<close>
  bytes when that is not zero and \<open>chunkSize\<close> bytes otherwise. For
  \<open>totalSize = 125000000\<close> and \<open>chunkSize = 50000000\<close> the parts uploaded are
  numbered 1, 2, 3 and have 50000000, 50000000 and 25000000 bytes.
\<close>

theorem C2_last_chunk_length:
  assumes client: "defaultR2Client st = Some client"
    and name: "fileName = str_or (option_customFileName option) (getFileName filePath)"
    and created: "send client (CreateMultipartUploadCommand bucket fileName
                    (Some ''application/octet-stream'') None) = Inr created"
    and uid: "UploadId created = Some uploadId" "uploadId \<noteq> []"
    and acc: "\<And>p body. send client (UploadPartCommand bucket fileName uploadId p body) = Inr (out p body)"
    and t: "totalSize = length fileBytes" "0 < totalSize"
    and c: "cli_chunkSize option = js_num chunkSize"
  shows "\<exists>trace. multipartUpload st send bucket filePath fileBytes option = Some (Inr (), trace) \<and>
           uploaded_parts trace \<noteq> [] \<and>
           length (snd (last (uploaded_parts trace)))
             = (if totalSize mod chunkSize \<noteq> 0 then totalSize mod chunkSize else chunkSize) \<and>
           (totalSize = 125000000 \<and> chunkSize = 50000000 \<longrightarrow>
              map (\<lambda>(partNumber, body). (partNumber, length body)) (uploaded_parts trace)
                = [(1, 50000000), (2, 50000000), (3, 25000000)])"
proof -
  have tpos: "0 < length fileBytes" using t by simp
  have cpos: "0 < chunkSize" using c by (rule cli_chunkSize_pos)
  obtain trace where run: "multipartUpload st send bucket filePath fileBytes option = Some (Inr (), trace)"
    and up: "uploaded_parts trace = map (\<lambda>i. (i + 1, chunk_of fileBytes (js_num chunkSize) i))
                 [0 ..< part_count (length fileBytes) chunkSize]"
    using multipartUpload_accepted[where send = send and client = client and out = out,
            OF client name created uid acc tpos c refl] by blast
  have n: "0 < part_count (length fileBytes) chunkSize" using cpos tpos by (rule part_count_pos)
  have ne: "uploaded_parts trace \<noteq> []" using n by (simp add: up)
  have "length (snd (last (uploaded_parts trace)))
          = length (chunk_of fileBytes (js_num chunkSize) (part_count (length fileBytes) chunkSize - 1))"
    unfolding up last_uploaded[OF n] by simp
  then have last: "length (snd (last (uploaded_parts trace)))
             = (if totalSize mod chunkSize \<noteq> 0 then totalSize mod chunkSize else chunkSize)"
    using last_chunk_length[OF cpos tpos] t(1) by simp
  have conc: "totalSize = 125000000 \<and> chunkSize = 50000000 \<longrightarrow>
              map (\<lambda>(partNumber, body). (partNumber, length body)) (uploaded_parts trace)
                = [(1, 50000000), (2, 50000000), (3, 25000000)]"
  proof
    assume a: "totalSize = 125000000 \<and> chunkSize = 50000000"
    then have "length fileBytes = 125000000" using t(1) by simp
    then show "map (\<lambda>(partNumber, body). (partNumber, length body)) (uploaded_parts trace)
                = [(1, 50000000), (2, 50000000), (3, 25000000)]"
      using a sizes_125_50[of fileBytes] by (simp add: up)
  qed
  from run ne last conc show ?thesis by (intro exI[of _ trace] conjI)
qed

theorem C2_witness:
  "\<exists>trace. multipartUpload ready_state accepting_store ''bucket'' ''dir/file.bin''
             (replicate 125000000 0) (chunks_of 50000000) = Some (Inr (), trace) \<and>
           length (snd (last (uploaded_parts trace))) = 25000000 \<and>
           map (\<lambda>(partNumber, body). (partNumber, length body)) (uploaded_parts trace)
             = [(1, 50000000), (2, 50000000), (3, 25000000)]"
proof -
  note C2_last_chunk_length
         [where st = ready_state and client = demo_client and send = accepting_store
            and option = "chunks_of 50000000" and filePath = "''dir/file.bin''" and bucket = "''bucket''"
            and fileName = "str_or (option_customFileName (chunks_of 50000000)) (getFileName ''dir/file.bin'')"
            and created = accepted_output and uploadId = "''upload-1''"
            and out = "\<lambda>p body. accepted_output" and totalSize = 125000000
            and chunkSize = 50000000
            and fileBytes = "replicate 125000000 0"]
  then have "\<exists>trace. multipartUpload ready_state accepting_store ''bucket'' ''dir/file.bin''
             (replicate 125000000 0) (chunks_of 50000000) = Some (Inr (), trace) \<and>
           uploaded_parts trace \<noteq> [] \<and>
           length (snd (last (uploaded_parts trace))) = 25000000 \<and>
           map (\<lambda>(partNumber, body). (partNumber, length body)) (uploaded_parts trace)
             = [(1, 50000000), (2, 50000000), (3, 25000000)]"
    by (simp add: ready_state_client accepting_store_def accepted_output_def)
  then show ?thesis by (elim exE conjE) (rule exI, intro conjI, assumption+)
qed

text \<open>
  C3: a run of the tool in which every part is accepted and the upload is never
  completed. The file has 310 MiB and the chunk size is the 50 MiB that \<open>uploadFile\<close>
  passes. All 7 parts are uploaded; after part 7 the progress line computes
  \<open>' '.repeat(50 - 56)\<close>, which throws, and the \<open>catch\<close> clause ends the run before
  \<open>completeMultipartUpload\<close>.
\<close>

theorem C3_completion_skipped_when_progress_throws:
  "map_option (\<lambda>result. (fst result, map fst (uploaded_parts (snd result)), completions (snd result)))
     (multipartUpload ready_state accepting_store ''bucket'' ''dir/file.bin''
        (replicate 325058560 0) (chunks_of 52428800))
   = Some (Inr (), [1, 2, 3, 4, 5, 6, 7], [])"
proof -
  have n: "part_count 325058560 52428800 = 7" by (simp add: part_count_eval)
  have l: "[0 ..< 7] = [0, 1, 2, 3, 4, 5, 6]" by (simp add: upt_rec)
  obtain trace where run: "multipartUpload ready_state accepting_store ''bucket'' ''dir/file.bin''
        (replicate 325058560 0) (chunks_of 52428800) = Some (Inr (), trace)"
    and up: "uploaded_parts trace = map (\<lambda>i. (i + 1, chunk_of (replicate 325058560 0) (js_num 52428800) i))
                 [0 ..< part_count 325058560 52428800]"
    and co: "completions trace =
             (if 50 * (part_count 325058560 52428800 * 52428800) < 51 * (325058560 :: nat)
              then [map (part_entry (\<lambda>p body. accepted_output) (replicate 325058560 0) (js_num 52428800))
                      [0 ..< part_count 325058560 52428800]]
              else [])"
    using multipartUpload_accepted[where st = ready_state and client = demo_client
            and send = accepting_store and option = "chunks_of 52428800"
            and filePath = "''dir/file.bin''" and bucket = "''bucket''" and fileName = "''file.bin''"
            and created = accepted_output and uploadId = "''upload-1''"
            and out = "\<lambda>p body. accepted_output" and fileBytes = "replicate 325058560 0"
            and c = 52428800 and n = "part_count 325058560 52428800"]
    by (auto simp: ready_state_client accepting_store_def accepted_output_def)
  show ?thesis
    by (simp add: run up co n l)
qed

text \<open>
  C4, as the code has it. The claim has the failure of part 2 of 5 propagated to the
  caller as an error that names part 2. The \<open>catch\<close> clause of \<open>multipartUpload\<close>
  takes the exception: the spinner is marked as failed, the tool waits for a key and the
  function returns normally.
\<close>

theorem C4_counterexample:
  "multipartUpload ready_state (rejecting_part 2) ''bucket'' ''dir/file.bin'' [1, 2, 3, 4, 5] (chunks_of 1) =
     Some (Inr (),
       [Sent demo_client
          (CreateMultipartUploadCommand ''bucket'' ''file.bin'' (Some ''application/octet-stream'') None),
        LoadingStart,
        Sent demo_client (UploadPartCommand ''bucket'' ''file.bin'' ''upload-1'' 1 [1]),
        LoadingText (replicate 10 CHR ''#'' @ replicate 40 CHR '' '') (Fin 20),
        Sent demo_client (UploadPartCommand ''bucket'' ''file.bin'' ''upload-1'' 2 [2]),
        LoadingFail, Prompt])"
  by (rule rejected_run_trace)

text \<open>
  C4, amended. When the store rejects the upload of part \<open>k\<close> (and has accepted the
  creation and the parts before it; the chunk size is a whole number of bytes), the tool
  has uploaded the parts 1 to \<open>k\<close> once
  each and nothing after them, does not call \<open>completeMultipartUpload\<close>, marks the
  spinner as failed and returns normally: no error reaches the caller.
\<close>

theorem C4_part_failure_stops_the_upload:
  assumes client: "defaultR2Client st = Some client"
    and name: "fileName = str_or (option_customFileName option) (getFileName filePath)"
    and created: "send client (CreateMultipartUploadCommand bucket fileName
                    (Some ''application/octet-stream'') None) = Inr created"
    and uid: "UploadId created = Some uploadId" "uploadId \<noteq> []"
    and c: "cli_chunkSize option = js_num chunkSize"
    and k: "0 < k" "k \<le> part_count (length fileBytes) chunkSize"
    and earlier: "\<And>p body. p < k \<Longrightarrow>
                    send client (UploadPartCommand bucket fileName uploadId p body) = Inr (out p body)"
    and fails: "send client (UploadPartCommand bucket fileName uploadId k
                               (chunk_of fileBytes (js_num chunkSize) (k - 1))) = Inl e"
  shows "\<exists>trace before.
           multipartUpload st send bucket filePath fileBytes option = Some (Inr (), trace) \<and>
           map fst (uploaded_parts trace) = [1 ..< k + 1] \<and>
           completions trace = [] \<and>
           trace = before @ [Sent client (UploadPartCommand bucket fileName uploadId k
                                            (chunk_of fileBytes (js_num chunkSize) (k - 1))),
                             LoadingFail, Prompt]"
proof -
  obtain j where j: "k = Suc j" using k(1) by (cases k) auto
  have jn: "j < part_count (length fileBytes) chunkSize" using k(2) j by simp
  have acc: "\<And>i. i < j \<Longrightarrow>
               send client (part_command bucket fileName uploadId fileBytes (js_num chunkSize) i)
                 = Inr (out (Suc i) (chunk_of fileBytes (js_num chunkSize) i))"
    using earlier j by (simp add: part_command_def)
  have rej: "send client (part_command bucket fileName uploadId fileBytes (js_num chunkSize) j) = Inl e"
    using fails j by (simp add: part_command_def)
  let ?before = "[Sent client (CreateMultipartUploadCommand bucket fileName
                     (Some ''application/octet-stream'') None), LoadingStart]
       @ concat (map (\<lambda>i. [Sent client (part_command bucket fileName uploadId fileBytes (js_num chunkSize) i),
                           cli_shown (length fileBytes) chunkSize (Suc i)]) [0 ..< j])"
  let ?trace = "?before @ [Sent client (part_command bucket fileName uploadId fileBytes (js_num chunkSize) j),
                           LoadingFail, Prompt]"
  have run: "multipartUpload st send bucket filePath fileBytes option = Some (Inr (), ?trace)"
    using multipartUpload_rejected[where send = send and client = client
             and out = "\<lambda>i. out (Suc i) (chunk_of fileBytes (js_num chunkSize) i)",
             OF client name created uid c jn acc rej]
    by simp
  have up: "map fst (uploaded_parts ?trace) = [1 ..< k + 1]"
    using upt_Suc_shift[of k]
    by (simp add: uploaded_parts_append uploaded_parts_steps_cli uploaded_parts_part comp_def j)
  have co: "completions ?trace = []"
    by (simp add: completions_append completions_steps_cli completions_part)
  have shape: "?trace = ?before @ [Sent client (UploadPartCommand bucket fileName uploadId k
                                            (chunk_of fileBytes (js_num chunkSize) (k - 1))),
                             LoadingFail, Prompt]"
    by (simp add: part_command_def j)
  from run up co shape show ?thesis by (intro exI[of _ ?trace] exI[of _ ?before] conjI)
qed

theorem C4_witness:
  "\<exists>trace before.
     multipartUpload ready_state (rejecting_part 2) ''bucket'' ''dir/file.bin'' [1, 2, 3, 4, 5] (chunks_of 1)
       = Some (Inr (), trace) \<and>
     map fst (uploaded_parts trace) = [1, 2] \<and>
     completions trace = [] \<and>
     trace = before @ [Sent demo_client (UploadPartCommand ''bucket'' ''file.bin'' ''upload-1'' 2 [2]),
                       LoadingFail, Prompt]"
proof -
  note C4_part_failure_stops_the_upload
         [where st = ready_state and client = demo_client and send = "rejecting_part 2"
            and option = "chunks_of 1" and filePath = "''dir/file.bin''" and bucket = "''bucket''"
            and fileName = "''file.bin''"
            and created = accepted_output and uploadId = "''upload-1''"
            and out = "\<lambda>p body. accepted_output" and chunkSize = 1 and k = 2
            and fileBytes = "[1, 2, 3, 4, 5]" and e = "ServiceException ''InternalError'' (Some 500)"]
  then show ?thesis
    by (simp add: ready_state_client accepted_output_def part_count_eval upt_rec
          chunk_of_def chunk_range_nat slice_nat numeral_2_eq_2)
qed

text \<open>
  C5: two runs of the tool in which every request is accepted. In the first the file has
  5 bytes and the chunk size is 2. For part 3 the fraction is \<open>3 / (5 / 2) = 1.2\<close>, the
  bar would need \<open>50 - 60\<close> blanks and \<open>repeat\<close> throws: the percentages shown are
  40 and 80, no progress is shown for the last part, and the run ends as a failure. In
  the second the file has 100 bytes and the chunk size is 101; the only part is the last
  one and the percentage shown for it is 101.
\<close>

theorem C5_progress_of_the_last_part:
  "multipartUpload ready_state accepting_store ''bucket'' ''dir/file.bin'' [1, 2, 3, 4, 5] (chunks_of 2) =
     Some (Inr (),
       [Sent demo_client
          (CreateMultipartUploadCommand ''bucket'' ''file.bin'' (Some ''application/octet-stream'') None),
        LoadingStart,
        Sent demo_client (UploadPartCommand ''bucket'' ''file.bin'' ''upload-1'' 1 [1, 2]),
        LoadingText (replicate 20 CHR ''#'' @ replicate 30 CHR '' '') (Fin 40),
        Sent demo_client (UploadPartCommand ''bucket'' ''file.bin'' ''upload-1'' 2 [3, 4]),
        LoadingText (replicate 40 CHR ''#'' @ replicate 10 CHR '' '') (Fin 80),
        Sent demo_client (UploadPartCommand ''bucket'' ''file.bin'' ''upload-1'' 3 [5]),
        LoadingFail, Prompt]) \<and>
   multipartUpload ready_state accepting_store ''bucket'' ''dir/file.bin'' (replicate 100 7) (chunks_of 101) =
     Some (Inr (),
       [Sent demo_client
          (CreateMultipartUploadCommand ''bucket'' ''file.bin'' (Some ''application/octet-stream'') None),
        LoadingStart,
        Sent demo_client (UploadPartCommand ''bucket'' ''file.bin'' ''upload-1'' 1 (replicate 100 7)),
        LoadingText (replicate 50 CHR ''#'') (Fin 101),
        Sent demo_client (CompleteMultipartUploadCommand ''bucket'' ''file.bin'' ''upload-1''
                            [\<lparr>PartNumber = 1, ETag = Some ''etag''\<rparr>]),
        ConsoleLog, LoadingSucceed, Prompt])"
proof -
  have "multipartUpload ready_state accepting_store ''bucket'' ''dir/file.bin'' [1, 2, 3, 4, 5] (chunks_of 2) =
     Some (Inr (),
       [Sent demo_client (CreateMultipartUploadCommand ''bucket'' ''file.bin''
           (Some ''application/octet-stream'') None),
        LoadingStart]
       @ concat (map (\<lambda>i. [Sent demo_client (part_command ''bucket'' ''file.bin'' ''upload-1'' [1, 2, 3, 4, 5] (js_num 2) i),
                           cli_shown (length [1, 2, 3, 4, 5 :: byte]) 2 (Suc i)]) [0 ..< 3 - 1])
       @ [Sent demo_client (part_command ''bucket'' ''file.bin'' ''upload-1'' [1, 2, 3, 4, 5] (js_num 2) (3 - 1)),
          LoadingFail, Prompt])"
    by (rule multipartUpload_progress_throws[where created = accepted_output
              and out = "\<lambda>p body. accepted_output"])
       (simp_all add: ready_state_client accepting_store_def accepted_output_def part_count_eval)
  then have first: "multipartUpload ready_state accepting_store ''bucket'' ''dir/file.bin'' [1, 2, 3, 4, 5] (chunks_of 2) =
     Some (Inr (),
       [Sent demo_client
          (CreateMultipartUploadCommand ''bucket'' ''file.bin'' (Some ''application/octet-stream'') None),
        LoadingStart,
        Sent demo_client (UploadPartCommand ''bucket'' ''file.bin'' ''upload-1'' 1 [1, 2]),
        LoadingText (replicate 20 CHR ''#'' @ replicate 30 CHR '' '') (Fin 40),
        Sent demo_client (UploadPartCommand ''bucket'' ''file.bin'' ''upload-1'' 2 [3, 4]),
        LoadingText (replicate 40 CHR ''#'' @ replicate 10 CHR '' '') (Fin 80),
        Sent demo_client (UploadPartCommand ''bucket'' ''file.bin'' ''upload-1'' 3 [5]),
        LoadingFail, Prompt])"
    by (simp add: part_command_def chunk_of_def chunk_range_nat slice_nat cli_shown_def
          bar_hashes_eval shown_percent_eval upt_rec)
  have "multipartUpload ready_state accepting_store ''bucket'' ''dir/file.bin'' (replicate 100 7) (chunks_of 101) =
     Some (Inr (),
       [Sent demo_client (CreateMultipartUploadCommand ''bucket'' ''file.bin''
           (Some ''application/octet-stream'') None),
        LoadingStart]
       @ concat (map (\<lambda>i. [Sent demo_client (part_command ''bucket'' ''file.bin'' ''upload-1'' (replicate 100 7) (js_num 101) i),
                           cli_shown (length (replicate 100 (7 :: byte))) 101 (Suc i)]) [0 ..< 1])
       @ [Sent demo_client (CompleteMultipartUploadCommand ''bucket'' ''file.bin'' ''upload-1''
                         (map (part_entry (\<lambda>p body. accepted_output) (replicate 100 7) (js_num 101)) [0 ..< 1])),
          ConsoleLog, LoadingSucceed, Prompt])"
    by (rule multipartUpload_completes[where created = accepted_output and result = accepted_output])
       (simp_all add: ready_state_client accepting_store_def accepted_output_def part_count_eval)
  then have second: "multipartUpload ready_state accepting_store ''bucket'' ''dir/file.bin'' (replicate 100 7) (chunks_of 101) =
     Some (Inr (),
       [Sent demo_client
          (CreateMultipartUploadCommand ''bucket'' ''file.bin'' (Some ''application/octet-stream'') None),
        LoadingStart,
        Sent demo_client (UploadPartCommand ''bucket'' ''file.bin'' ''upload-1'' 1 (replicate 100 7)),
        LoadingText (replicate 50 CHR ''#'') (Fin 101),
        Sent demo_client (CompleteMultipartUploadCommand ''bucket'' ''file.bin'' ''upload-1''
                            [\<lparr>PartNumber = 1, ETag = Some ''etag''\<rparr>]),
        ConsoleLog, LoadingSucceed, Prompt])"
    by (simp add: part_command_def chunk_of_def chunk_range_nat slice_nat cli_shown_def
          bar_hashes_eval shown_percent_eval part_entry_def accepted_output_def)
  from first second show ?thesis by (rule conjI)
qed

text \<open>
  C6, as the code has it. The claim has a zero-byte file uploaded as one empty part 1
  that is listed in the completion. With an empty file the loop bound is 0, so the loop
  body never runs: nothing is uploaded and the upload is completed with an empty list.
\<close>

theorem C6_counterexample:
  "multipartUpload ready_state accepting_store ''bucket'' ''dir/empty.bin'' [] None =
     Some (Inr (),
       [Sent demo_client
          (CreateMultipartUploadCommand ''bucket'' ''empty.bin'' (Some ''application/octet-stream'') None),
        LoadingStart,
        Sent demo_client (CompleteMultipartUploadCommand ''bucket'' ''empty.bin'' ''upload-1'' []),
        ConsoleLog, LoadingSucceed, Prompt])"
  by (simp add: multipartUpload_def Let_def cli_try_def createMultipartUpload_client[OF ready_state_client]
        completeMultipartUpload_client[OF ready_state_client]
        upload_parts_eq[OF cli_chunkSize_nonzero] iterations_zero[OF cli_chunkSize_nonzero] accepting_store_def accepted_output_def)

text \<open>
  C6, amended. When \<open>totalSize = 0\<close> and the store has created the upload, the tool
  uploads no part and calls \<open>completeMultipartUpload\<close> once, with an empty part list.
\<close>

theorem C6_empty_file_completes_with_no_parts:
  assumes client: "defaultR2Client st = Some client"
    and name: "fileName = str_or (option_customFileName option) (getFileName filePath)"
    and created: "send client (CreateMultipartUploadCommand bucket fileName
                    (Some ''application/octet-stream'') None) = Inr created"
    and uid: "UploadId created = Some uploadId" "uploadId \<noteq> []"
    and empty: "length fileBytes = 0"
  shows "\<exists>trace. multipartUpload st send bucket filePath fileBytes option = Some (Inr (), trace) \<and>
           uploaded_parts trace = [] \<and> completions trace = [[]]"
  using empty
  by (cases "send client (CompleteMultipartUploadCommand bucket fileName uploadId [])")
     (simp_all add: multipartUpload_def Let_def cli_try_def name[symmetric]
        createMultipartUpload_client[OF client] created uid
        completeMultipartUpload_client[OF client]
        upload_parts_eq[OF cli_chunkSize_nonzero] iterations_zero[OF cli_chunkSize_nonzero])

theorem C6_witness:
  "\<exists>trace. multipartUpload ready_state accepting_store ''bucket'' ''dir/empty.bin'' [] None
             = Some (Inr (), trace) \<and>
           uploaded_parts trace = [] \<and> completions trace = [[]]"
  using C6_empty_file_completes_with_no_parts
          [where st = ready_state and client = demo_client and send = accepting_store
             and option = None and filePath = "''dir/empty.bin''" and bucket = "''bucket''"
             and fileName = "str_or (option_customFileName None) (getFileName ''dir/empty.bin'')"
             and created = accepted_output and uploadId = "''upload-1''" and fileBytes = "[]"]
  by (simp add: ready_state_client accepting_store_def accepted_output_def)

text \<open>
  C7. In the trace of every attempt of the tool that returns, whatever the state, the
  store, the file and the option are, there is no \<open>AbortMultipartUpload\<close> request, a
  rejected request (the creation, a part or the completion) is the last request sent, no
  part number is sent twice and at most one completion is sent: a failure ends the attempt
  with no retry and no cleanup request. With a chunk size option that is absent, NaN or
  a whole number of bytes every attempt returns, and so has such a trace.
\<close>

theorem C7_no_abort_no_retry:
  "(\<forall>result trace. multipartUpload st send bucket filePath fileBytes option = Some (result, trace) \<longrightarrow>
      \<not> list_ex is_abort trace \<and> fail_fast send trace \<and>
      distinct (map fst (uploaded_parts trace)) \<and> length (completions trace) \<le> 1) \<and>
   (option_chunkSize option = None \<or> option_chunkSize option = Some NaN \<or>
    option_chunkSize option = Some (js_num n) \<longrightarrow>
      (\<exists>trace. multipartUpload st send bucket filePath fileBytes option = Some (Inr (), trace) \<and>
         \<not> list_ex is_abort trace \<and> fail_fast send trace \<and>
         distinct (map fst (uploaded_parts trace)) \<and> length (completions trace) \<le> 1))"
proof -
  have every: "\<forall>result trace. multipartUpload st send bucket filePath fileBytes option = Some (result, trace) \<longrightarrow>
      \<not> list_ex is_abort trace \<and> fail_fast send trace \<and>
      distinct (map fst (uploaded_parts trace)) \<and> length (completions trace) \<le> 1"
  proof (intro allI impI)
    fix result trace
    assume "multipartUpload st send bucket filePath fileBytes option = Some (result, trace)"
    then have "sound_attempt send trace" by (rule multipartUpload_sound)
    then show "\<not> list_ex is_abort trace \<and> fail_fast send trace \<and>
      distinct (map fst (uploaded_parts trace)) \<and> length (completions trace) \<le> 1"
      by (simp add: sound_attempt_def)
  qed
  have returns: "option_chunkSize option = None \<or> option_chunkSize option = Some NaN \<or>
      option_chunkSize option = Some (js_num n) \<longrightarrow>
      (\<exists>trace. multipartUpload st send bucket filePath fileBytes option = Some (Inr (), trace) \<and>
         \<not> list_ex is_abort trace \<and> fail_fast send trace \<and>
         distinct (map fst (uploaded_parts trace)) \<and> length (completions trace) \<le> 1)"
  proof
    assume "option_chunkSize option = None \<or> option_chunkSize option = Some NaN \<or>
            option_chunkSize option = Some (js_num n)"
    then have "cli_chunkSize option =
                 js_num (if option_chunkSize option = Some (js_num n) \<and> 0 < n then n else 50 * 1024 * 1024)"
      by (rule cli_chunkSize_whole)
    then obtain trace where run: "multipartUpload st send bucket filePath fileBytes option = Some (Inr (), trace)"
      using multipartUpload_returns by blast
    then have "\<not> list_ex is_abort trace \<and> fail_fast send trace \<and>
        distinct (map fst (uploaded_parts trace)) \<and> length (completions trace) \<le> 1"
      using every by blast
    with run show "\<exists>trace. multipartUpload st send bucket filePath fileBytes option = Some (Inr (), trace) \<and>
           \<not> list_ex is_abort trace \<and> fail_fast send trace \<and>
           distinct (map fst (uploaded_parts trace)) \<and> length (completions trace) \<le> 1"
      by blast
  qed
  from every returns show ?thesis by (rule conjI)
qed

theorem C7_witness:
  "\<exists>trace. multipartUpload ready_state (rejecting_part 2) ''bucket'' ''dir/file.bin'' [1, 2, 3, 4, 5] (chunks_of 1)
             = Some (Inr (), trace) \<and>
           trace =
             [Sent demo_client
                (CreateMultipartUploadCommand ''bucket'' ''file.bin'' (Some ''application/octet-stream'') None),
              LoadingStart,
              Sent demo_client (UploadPartCommand ''bucket'' ''file.bin'' ''upload-1'' 1 [1]),
              LoadingText (replicate 10 CHR ''#'' @ replicate 40 CHR '' '') (Fin 20),
              Sent demo_client (UploadPartCommand ''bucket'' ''file.bin'' ''upload-1'' 2 [2]),
              LoadingFail, Prompt] \<and>
           list_ex (rejected (rejecting_part 2)) trace \<and>
           \<not> list_ex is_abort trace \<and> fail_fast (rejecting_part 2) trace \<and>
           distinct (map fst (uploaded_parts trace)) \<and> length (completions trace) \<le> 1"
proof -
  have whole: "option_chunkSize (chunks_of 1) = Some (js_num 1)"
    by (simp add: chunks_of_def option_chunkSize_def)
  obtain trace where run: "multipartUpload ready_state (rejecting_part 2) ''bucket'' ''dir/file.bin''
                             [1, 2, 3, 4, 5] (chunks_of 1) = Some (Inr (), trace)"
    and sound: "\<not> list_ex is_abort trace \<and> fail_fast (rejecting_part 2) trace \<and>
                distinct (map fst (uploaded_parts trace)) \<and> length (completions trace) \<le> 1"
    using C7_no_abort_no_retry
            [where st = ready_state and send = "rejecting_part 2" and bucket = "''bucket''"
               and filePath = "''dir/file.bin''" and fileBytes = "[1, 2, 3, 4, 5]"
               and option = "chunks_of 1" and n = 1]
          whole
    by blast
  have shape: "trace =
             [Sent demo_client
                (CreateMultipartUploadCommand ''bucket'' ''file.bin'' (Some ''application/octet-stream'') None),
              LoadingStart,
              Sent demo_client (UploadPartCommand ''bucket'' ''file.bin'' ''upload-1'' 1 [1]),
              LoadingText (replicate 10 CHR ''#'' @ replicate 40 CHR '' '') (Fin 20),
              Sent demo_client (UploadPartCommand ''bucket'' ''file.bin'' ''upload-1'' 2 [2]),
              LoadingFail, Prompt]"
    using run rejected_run_trace by simp
  have "list_ex (rejected (rejecting_part 2)) trace"
    unfolding shape by simp
  with run shape sound show ?thesis by (intro exI[of _ trace] conjI) simp_all
qed

text \<open>
  C8, as the code has it. The claim gives 50 MiB as the chunk size used when no
  \<open>chunkSize\<close> option is supplied; the example script's \<open>multipartUpload\<close> uses
  5 MiB in that case.
\<close>

theorem C8_counterexample: "example_chunkSize None \<noteq> js_num (50 * 1024 * 1024)"
  by (simp add: example_chunkSize_def option_chunkSize_def num_or_def js_num_def)

text \<open>
  C8, amended. When no \<open>chunkSize\<close> option is supplied, the tool's \<open>multipartUpload\<close>
  uses 50 MiB and the example script's uses 5 MiB. The size is fixed before the loop:
  in a run in which the store accepts the creation and every part, every part uploaded
  but the last has exactly that many bytes.
\<close>

theorem C8_default_chunk_sizes:
  assumes none: "option_chunkSize option = None"
    and client: "defaultR2Client st = Some client"
    and name: "fileName = str_or (option_customFileName option) (getFileName filePath)"
    and created: "send client (CreateMultipartUploadCommand bucket fileName
                    (Some ''application/octet-stream'') None) = Inr created"
    and uid: "UploadId created = Some uploadId" "uploadId \<noteq> []"
    and acc: "\<And>p body. send client (UploadPartCommand bucket fileName uploadId p body) = Inr (out p body)"
    and t: "0 < length fileBytes"
  shows "cli_chunkSize option = js_num (50 * 1024 * 1024) \<and>
         example_chunkSize option = js_num (5 * 1024 * 1024) \<and>
         (\<exists>trace. multipartUpload st send bucket filePath fileBytes option = Some (Inr (), trace) \<and>
            (\<forall>k. k + 1 < length (uploaded_parts trace) \<longrightarrow>
               length (snd (uploaded_parts trace ! k)) = 50 * 1024 * 1024)) \<and>
         (\<exists>trace. example_multipartUpload st send bucket filePath fileBytes option = Some (Inr (), trace) \<and>
            (\<forall>k. k + 1 < length (uploaded_parts trace) \<longrightarrow>
               length (snd (uploaded_parts trace ! k)) = 5 * 1024 * 1024))"
proof -
  have c1: "cli_chunkSize option = js_num (50 * 1024 * 1024)"
    using none by (simp add: cli_chunkSize_def num_or_def js_num_def)
  have c2: "example_chunkSize option = js_num (5 * 1024 * 1024)"
    using none by (simp add: example_chunkSize_def num_or_def js_num_def)
  have p1: "0 < (50 * 1024 * 1024 :: nat)" by simp
  have p2: "0 < (5 * 1024 * 1024 :: nat)" by simp
  obtain trace1 where run1: "multipartUpload st send bucket filePath fileBytes option = Some (Inr (), trace1)"
    and up1: "uploaded_parts trace1 = map (\<lambda>i. (i + 1, chunk_of fileBytes (js_num (50 * 1024 * 1024)) i))
                 [0 ..< part_count (length fileBytes) (50 * 1024 * 1024)]"
    using multipartUpload_accepted[where send = send and client = client and out = out,
            OF client name created uid acc t c1 refl] by blast
  obtain trace2 where run2: "example_multipartUpload st send bucket filePath fileBytes option = Some (Inr (), trace2)"
    and up2: "uploaded_parts trace2 = map (\<lambda>i. (i + 1, chunk_of fileBytes (js_num (5 * 1024 * 1024)) i))
                 [0 ..< part_count (length fileBytes) (5 * 1024 * 1024)]"
    using example_multipartUpload_accepted[where send = send and client = client and out = out,
            OF client name created uid acc t c2 refl] by blast
  have l1: "\<forall>k. k + 1 < length (uploaded_parts trace1) \<longrightarrow>
               length (snd (uploaded_parts trace1 ! k)) = 50 * 1024 * 1024"
    unfolding up1 using p1 by (rule non_last_uploaded_length)
  have l2: "\<forall>k. k + 1 < length (uploaded_parts trace2) \<longrightarrow>
               length (snd (uploaded_parts trace2 ! k)) = 5 * 1024 * 1024"
    unfolding up2 using p2 by (rule non_last_uploaded_length)
  have first: "\<exists>trace. multipartUpload st send bucket filePath fileBytes option = Some (Inr (), trace) \<and>
            (\<forall>k. k + 1 < length (uploaded_parts trace) \<longrightarrow>
               length (snd (uploaded_parts trace ! k)) = 50 * 1024 * 1024)"
    using run1 l1 by (intro exI[of _ trace1] conjI)
  have second: "\<exists>trace. example_multipartUpload st send bucket filePath fileBytes option = Some (Inr (), trace) \<and>
            (\<forall>k. k + 1 < length (uploaded_parts trace) \<longrightarrow>
               length (snd (uploaded_parts trace ! k)) = 5 * 1024 * 1024)"
    using run2 l2 by (intro exI[of _ trace2] conjI)
  from c1 c2 first second show ?thesis by (intro conjI)
qed

theorem C8_witness:
  "cli_chunkSize None = js_num 52428800 \<and> example_chunkSize None = js_num 5242880 \<and>
   (\<exists>trace. example_multipartUpload ready_state accepting_store ''bucket'' ''dir/file.bin''
              (replicate 6000000 0) None = Some (Inr (), trace) \<and>
            (\<forall>k. k + 1 < length (uploaded_parts trace) \<longrightarrow>
               length (snd (uploaded_parts trace ! k)) = 5242880))"
proof -
  note C8_default_chunk_sizes
         [where st = ready_state and client = demo_client and send = accepting_store
            and option = None and filePath = "''dir/file.bin''" and bucket = "''bucket''"
            and fileName = "str_or (option_customFileName None) (getFileName ''dir/file.bin'')"
            and created = accepted_output and uploadId = "''upload-1''"
            and out = "\<lambda>p body. accepted_output"
            and fileBytes = "replicate 6000000 0"]
  then show ?thesis
    by (simp add: ready_state_client accepting_store_def accepted_output_def option_chunkSize_def)
qed

text \<open>
  C9, as the code has it. The claim has the effective chunk size positive for every value
  of the \<open>chunkSize\<close> option. The option is a number, and \<open>option?.chunkSize || d\<close>
  keeps every truthy number: a chunk size of -1 is used as it is. The loop bound
  \<open>3 / -1\<close> is then negative, the loop body never runs, and the tool completes the
  upload of a file of 3 bytes with an empty part list and reports success.
\<close>

theorem C9_counterexample:
  "cli_chunkSize (Some \<lparr>opt_chunkSize = Some (Fin (- 1)), opt_customFileName = None\<rparr>) = Fin (- 1) \<and>
   js_quot (js_num 3) (Fin (- 1)) = Fin (- 3) \<and>
   multipartUpload ready_state accepting_store ''bucket'' ''dir/file.bin'' [1, 2, 3]
       (Some \<lparr>opt_chunkSize = Some (Fin (- 1)), opt_customFileName = None\<rparr>) =
     Some (Inr (),
       [Sent demo_client
          (CreateMultipartUploadCommand ''bucket'' ''file.bin'' (Some ''application/octet-stream'') None),
        LoadingStart,
        Sent demo_client (CompleteMultipartUploadCommand ''bucket'' ''file.bin'' ''upload-1'' []),
        ConsoleLog, LoadingSucceed, Prompt])"
proof -
  have c: "cli_chunkSize (Some \<lparr>opt_chunkSize = Some (Fin (- 1)), opt_customFileName = None\<rparr>) = Fin (- 1)"
    by (simp add: cli_chunkSize_def option_chunkSize_def num_or_def)
  have q: "js_quot (js_num 3) (Fin (- 1)) = Fin (- 3)"
    by (simp add: js_num_def)
  have n: "\<And>t. iterations t (Fin (- 1)) = 0"
  proof -
    fix t :: nat
    have "(of_nat t :: rat) / (- 1) \<le> 0" by simp
    then have "\<lceil>(of_nat t :: rat) / (- 1)\<rceil> \<le> 0" by (simp add: ceiling_le_iff)
    then show "iterations t (Fin (- 1)) = 0" by (simp add: iterations_def js_num_def)
  qed
  have nz: "Fin (- 1) \<noteq> Fin 0" by simp
  have "multipartUpload ready_state accepting_store ''bucket'' ''dir/file.bin'' [1, 2, 3]
       (Some \<lparr>opt_chunkSize = Some (Fin (- 1)), opt_customFileName = None\<rparr>) =
     Some (Inr (),
       [Sent demo_client
          (CreateMultipartUploadCommand ''bucket'' ''file.bin'' (Some ''application/octet-stream'') None),
        LoadingStart,
        Sent demo_client (CompleteMultipartUploadCommand ''bucket'' ''file.bin'' ''upload-1'' []),
        ConsoleLog, LoadingSucceed, Prompt])"
    by (simp add: multipartUpload_def Let_def c cli_try_def str_or_def option_customFileName_def
          createMultipartUpload_client[OF ready_state_client]
          completeMultipartUpload_client[OF ready_state_client]
          upload_parts_eq[OF nz] n accepting_store_def accepted_output_def)
  with c q show ?thesis by (intro conjI)
qed

text \<open>
  C9, amended. The chunk size the tool uses is positive exactly when the \<open>chunkSize\<close>
  option is not a negative number: absent, 0 and NaN are falsy and give 50 MiB, every
  other number is used as it is. When the option is absent, NaN or a whole number of
  bytes, an explicit 0 included, the chunk size used is a positive whole number, the loop
  bound \<open>totalSize / chunkSize\<close> is a finite number, and \<open>multipartUpload\<close>
  returns, for every store, file and state, after at most \<open>ceil(totalSize / chunkSize)\<close>
  part uploads. With a negative chunk size the test of the loop fails before the first
  part.
\<close>

theorem C9_whole_chunk_size_loop_terminates:
  "js_less (Fin 0) (cli_chunkSize option)
     = (\<forall>x. option_chunkSize option = Some x \<longrightarrow> \<not> js_less x (Fin 0)) \<and>
   (option_chunkSize option = None \<or> option_chunkSize option = Some NaN \<or>
    option_chunkSize option = Some (js_num n) \<longrightarrow>
      (\<exists>chunkSize.
         chunkSize = (if option_chunkSize option = Some (js_num n) \<and> 0 < n then n else 50 * 1024 * 1024) \<and>
         cli_chunkSize option = js_num chunkSize \<and> 0 < chunkSize \<and>
         js_quot (js_num (length fileBytes)) (cli_chunkSize option) =
           Fin (of_nat (length fileBytes) / of_nat chunkSize) \<and>
         (\<exists>trace. multipartUpload st send bucket filePath fileBytes option = Some (Inr (), trace) \<and>
                  length (uploaded_parts trace) \<le> part_count (length fileBytes) chunkSize))) \<and>
   cli_chunkSize (Some \<lparr>opt_chunkSize = Some (Fin 0), opt_customFileName = name\<rparr>)
     = js_num (50 * 1024 * 1024) \<and>
   (\<forall>r. r < 0 \<longrightarrow>
      cli_chunkSize (Some \<lparr>opt_chunkSize = Some (Fin r), opt_customFileName = name\<rparr>) = Fin r \<and>
      \<not> js_less (js_num 0) (js_quot (js_num (length fileBytes)) (Fin r)))"
proof -
  have sign: "js_less (Fin 0) (cli_chunkSize option)
     = (\<forall>x. option_chunkSize option = Some x \<longrightarrow> \<not> js_less x (Fin 0))"
  proof (cases "option_chunkSize option")
    case None
    then show ?thesis by (simp add: cli_chunkSize_def num_or_def)
  next
    case (Some x)
    then show ?thesis by (cases x) (auto simp: cli_chunkSize_def num_or_def)
  qed
  have whole: "option_chunkSize option = None \<or> option_chunkSize option = Some NaN \<or>
    option_chunkSize option = Some (js_num n) \<longrightarrow>
      (\<exists>chunkSize.
         chunkSize = (if option_chunkSize option = Some (js_num n) \<and> 0 < n then n else 50 * 1024 * 1024) \<and>
         cli_chunkSize option = js_num chunkSize \<and> 0 < chunkSize \<and>
         js_quot (js_num (length fileBytes)) (cli_chunkSize option) =
           Fin (of_nat (length fileBytes) / of_nat chunkSize) \<and>
         (\<exists>trace. multipartUpload st send bucket filePath fileBytes option = Some (Inr (), trace) \<and>
                  length (uploaded_parts trace) \<le> part_count (length fileBytes) chunkSize))"
  proof
    assume given: "option_chunkSize option = None \<or> option_chunkSize option = Some NaN \<or>
                   option_chunkSize option = Some (js_num n)"
    define c where "c = (if option_chunkSize option = Some (js_num n) \<and> 0 < n then n else 50 * 1024 * 1024)"
    have cdef: "cli_chunkSize option = js_num c"
      unfolding c_def using given by (rule cli_chunkSize_whole)
    have pos: "0 < c" using cdef by (rule cli_chunkSize_pos)
    have fin: "js_quot (js_num (length fileBytes)) (cli_chunkSize option) =
                Fin (of_nat (length fileBytes) / of_nat c)"
      using pos by (simp add: cdef js_num_def)
    obtain trace where run: "multipartUpload st send bucket filePath fileBytes option = Some (Inr (), trace)"
      using multipartUpload_returns[OF cdef] by blast
    have le: "length (uploaded_parts trace) \<le> part_count (length fileBytes) c"
      using run cdef by (rule multipartUpload_uploads_le)
    show "\<exists>chunkSize.
         chunkSize = (if option_chunkSize option = Some (js_num n) \<and> 0 < n then n else 50 * 1024 * 1024) \<and>
         cli_chunkSize option = js_num chunkSize \<and> 0 < chunkSize \<and>
         js_quot (js_num (length fileBytes)) (cli_chunkSize option) =
           Fin (of_nat (length fileBytes) / of_nat chunkSize) \<and>
         (\<exists>trace. multipartUpload st send bucket filePath fileBytes option = Some (Inr (), trace) \<and>
                  length (uploaded_parts trace) \<le> part_count (length fileBytes) chunkSize)"
      using c_def cdef pos fin run le by (intro exI[of _ c] conjI exI[of _ trace])
  qed
  have zero: "cli_chunkSize (Some \<lparr>opt_chunkSize = Some (Fin 0), opt_customFileName = name\<rparr>)
           = js_num (50 * 1024 * 1024)"
    by (simp add: cli_chunkSize_def option_chunkSize_def num_or_def js_num_def)
  have negative: "\<forall>r. r < 0 \<longrightarrow>
            cli_chunkSize (Some \<lparr>opt_chunkSize = Some (Fin r), opt_customFileName = name\<rparr>) = Fin r \<and>
            \<not> js_less (js_num 0) (js_quot (js_num (length fileBytes)) (Fin r))"
    by (simp add: cli_chunkSize_def option_chunkSize_def num_or_def js_num_def divide_nonneg_neg not_less)
  from sign whole zero negative show ?thesis by (intro conjI)
qed

theorem C9_witness:
  "cli_chunkSize (chunks_of 0) = js_num 52428800 \<and>
   (\<exists>trace. multipartUpload ready_state accepting_store ''bucket'' ''dir/file.bin'' [1, 2, 3] (chunks_of 0)
              = Some (Inr (), trace) \<and>
            length (uploaded_parts trace) \<le> 1)"
proof -
  have whole: "option_chunkSize (chunks_of 0) = Some (js_num 0)"
    by (simp add: chunks_of_def option_chunkSize_def)
  have n: "part_count (length [1, 2, 3 :: byte]) 52428800 = 1"
    by (simp add: part_count_eval)
  show ?thesis
    using C9_whole_chunk_size_loop_terminates
            [where option = "chunks_of 0" and n = 0 and fileBytes = "[1, 2, 3]" and st = ready_state
               and send = accepting_store and bucket = "''bucket''" and filePath = "''dir/file.bin''"
               and name = None]
          whole n
    by simp
qed



end
